theory Spec2Isabelle
  imports Complex_Main "HOL-Library.Log_Nat"
begin

section \<open>Binary64 arithmetic as used by the policy code\<close>

text \<open>
  The policy code converts its integer counters to \<^verbatim>\<open>float64\<close>, divides, multiplies and
  compares them. A float64 is modelled by the rational number it denotes; every operation
  computes the exact rational result and rounds it to the nearest number with a 53-bit
  significand, ties to the even significand (IEEE 754 binary64, the only rounding mode Go
  uses). The operands of the code are integers and quotients of integers of at most 64
  bits, so no result is subnormal, infinite or NaN, and the exponent range is left
  unbounded.
\<close>

definition f64_expo :: "rat \<Rightarrow> int" where
  \<comment> \<open>for \<open>x > 0\<close>: the exponent \<open>e\<close> with \<open>2 powi e \<le> x < 2 powi (e + 1)\<close>\<close>
  "f64_expo x =
     (if 1 \<le> x then bitlen \<lfloor>x\<rfloor> - 1
      else let k = bitlen \<lfloor>1 / x\<rfloor> - 1 in if 2 powi (- k) \<le> x then - k else - k - 1)"

definition round_half_even :: "rat \<Rightarrow> int" where
  "round_half_even q =
     (let f = \<lfloor>q\<rfloor>; r = q - of_int f
      in if r < 1 / 2 then f else if 1 / 2 < r then f + 1 else if even f then f else f + 1)"

definition f64_round :: "rat \<Rightarrow> rat" where
  "f64_round x =
     (if x = 0 then 0
      else let e = f64_expo \<bar>x\<bar>
           in sgn x * of_int (round_half_even (\<bar>x\<bar> * 2 powi (52 - e))) * 2 powi (e - 52))"

definition float64 :: "int \<Rightarrow> rat" where
  \<comment> \<open>the conversion \<^verbatim>\<open>float64(n)\<close>\<close>
  "float64 n = f64_round (of_int n)"

definition f64_div :: "rat \<Rightarrow> rat \<Rightarrow> rat" where
  "f64_div x y = f64_round (x / y)"

definition f64_mul :: "rat \<Rightarrow> rat \<Rightarrow> rat" where
  "f64_mul x y = f64_round (x * y)"

definition f64_Ceil :: "rat \<Rightarrow> int" where
  \<comment> \<open>\<^verbatim>\<open>int(math.Ceil(x))\<close>: the ceiling of a float64 is exact\<close>
  "f64_Ceil x = \<lceil>x\<rceil>"

section \<open>Witnesses, proofs and the policy configuration\<close>

text \<open>
  Modelled from the spec: the declarations of package \<^verbatim>\<open>proof\<close> (\<^verbatim>\<open>Witness\<close>,
  \<^verbatim>\<open>WitnessProof\<close>, \<^verbatim>\<open>WitnessType\<close>) are used by the code and not part of the sources.
  The witness type is a string type in Go with the two named values the code switches on;
  every other value is \<open>WitnessTypeOther\<close>. A URI is the text its \<^verbatim>\<open>String()\<close>
  method returns, which is all the code ever reads of it. \<^verbatim>\<open>WitnessProof\<close> embeds
  \<^verbatim>\<open>Witness\<close> and adds the proof bytes; a Go byte slice is either \<^verbatim>\<open>nil\<close>
  (\<open>None\<close>) or a possibly empty sequence of bytes.
\<close>

datatype WitnessType = WitnessTypeBatch | WitnessTypeSystem | WitnessTypeOther

record Witness =
  Type :: WitnessType
  URI :: string
  HasLog :: bool
  Selected :: bool

record WitnessProof = Witness +
  Proof :: "char list option"

text \<open>
  Modelled from the spec: the parsed policy of package \<^verbatim>\<open>config\<close>, whose parser is not part
  of the sources. The code reads the six fields below and calls \<^verbatim>\<open>OperatorFnc\<close>, which
  the spec fixes as conjunction for \<open>AND\<close> and disjunction for \<open>OR\<close>.
\<close>

datatype Operator = AND | OR

record WitnessPolicyConfig =
  MinNumberSystem :: int
  MinNumberBatch :: int
  MinPercentSystem :: int
  MinPercentBatch :: int
  Operator :: Operator
  LogRequired :: bool

definition OperatorFnc :: "WitnessPolicyConfig \<Rightarrow> bool \<Rightarrow> bool \<Rightarrow> bool" where
  "OperatorFnc cfg a b = (case Operator cfg of AND \<Rightarrow> a \<and> b | OR \<Rightarrow> a \<or> b)"

text \<open>
  Modelled from the spec: what the parser guarantees of a configuration it returns
  (the numbers are non-negative, a percentage is at most 100).
\<close>

definition parsedConfig :: "WitnessPolicyConfig \<Rightarrow> bool" where
  "parsedConfig cfg \<longleftrightarrow>
     0 \<le> MinNumberBatch cfg \<and> 0 \<le> MinNumberSystem cfg \<and>
     0 \<le> MinPercentBatch cfg \<and> MinPercentBatch cfg \<le> 100 \<and>
     0 \<le> MinPercentSystem cfg \<and> MinPercentSystem cfg \<le> 100"

text \<open>
  Errors are values. \<open>Err\<close> carries the message of a plain error, \<open>Transient\<close> is the
  retryable wrapper of package \<^verbatim>\<open>orberrors\<close>, and \<open>Wrap c e\<close> is
  \<^verbatim>\<open>fmt.Errorf("c: %w", e)\<close>. The context strings of the selection errors, which print
  whole witness lists, are shortened to their leading words.
\<close>

datatype error = Err string | Transient error | Wrap string error

fun Error :: "error \<Rightarrow> string" where
  "Error (Err m) = m"
| "Error (Transient e) = Error e"
| "Error (Wrap c e) = c @ '': '' @ Error e"

text \<open>
  The evaluator and selector object. The policy cache and the parser behind
  \<^verbatim>\<open>getWitnessPolicyConfig\<close> are outside the sources, so the object carries the result
  of that call; the selection strategy is the pluggable \<^verbatim>\<open>selector\<close> interface.
\<close>

record WitnessPolicy =
  getWitnessPolicyConfig :: "error + WitnessPolicyConfig"
  selector :: "Witness list \<Rightarrow> int \<Rightarrow> error + Witness list"

section \<open>Policy evaluation\<close>

definition maxPercent :: int where
  "maxPercent = 100"

definition evaluate :: "int \<Rightarrow> int \<Rightarrow> int \<Rightarrow> int \<Rightarrow> bool" where
  "evaluate collected total' minNumber minPercent =
     (let percentCollected =
            (if total' \<noteq> 0 then f64_div (float64 collected) (float64 total')
             else float64 maxPercent)
      in (minNumber \<noteq> 0 \<and> minNumber \<le> collected) \<or>
         f64_div (float64 minPercent) (float64 maxPercent) \<le> percentCollected)"

definition checkLog :: "bool \<Rightarrow> bool \<Rightarrow> bool" where
  "checkLog logRequired hasLog = (if logRequired then hasLog else True)"

text \<open>The four counters of the loop in \<^verbatim>\<open>Evaluate\<close>.\<close>

record counters =
  totalSystemWitnesses :: int
  collectedSystemWitnesses :: int
  totalBatchWitnesses :: int
  collectedBatchWitnesses :: int

definition countWitness :: "WitnessPolicyConfig \<Rightarrow> counters \<Rightarrow> WitnessProof \<Rightarrow> counters" where
  \<comment> \<open>one iteration of the loop\<close>
  "countWitness cfg c w =
     (let logOK = checkLog (LogRequired cfg) (HasLog w) in
      case Type w of
        WitnessTypeBatch \<Rightarrow>
          (let c1 = c\<lparr>totalBatchWitnesses := totalBatchWitnesses c + 1\<rparr>
           in if logOK \<and> Proof w \<noteq> None
              then c1\<lparr>collectedBatchWitnesses := collectedBatchWitnesses c1 + 1\<rparr> else c1)
      | WitnessTypeSystem \<Rightarrow>
          (let c1 = c\<lparr>totalSystemWitnesses := totalSystemWitnesses c + 1\<rparr>
           in if logOK \<and> Proof w \<noteq> None
              then c1\<lparr>collectedSystemWitnesses := collectedSystemWitnesses c1 + 1\<rparr> else c1)
      | WitnessTypeOther \<Rightarrow> c)"

fun countWitnesses :: "WitnessPolicyConfig \<Rightarrow> counters \<Rightarrow> WitnessProof list \<Rightarrow> counters" where
  "countWitnesses cfg c [] = c"
| "countWitnesses cfg c (w # ws) = countWitnesses cfg (countWitness cfg c w) ws"

definition zeroCounters :: counters where
  "zeroCounters = \<lparr>totalSystemWitnesses = 0, collectedSystemWitnesses = 0,
                    totalBatchWitnesses = 0, collectedBatchWitnesses = 0\<rparr>"

definition Evaluate :: "WitnessPolicy \<Rightarrow> WitnessProof list \<Rightarrow> error + bool" where
  "Evaluate wp witnesses =
     (case getWitnessPolicyConfig wp of
        Inl err \<Rightarrow> Inl err
      | Inr cfg \<Rightarrow>
          (let c = countWitnesses cfg zeroCounters witnesses;
               batchCondition = evaluate (collectedBatchWitnesses c) (totalBatchWitnesses c)
                                  (MinNumberBatch cfg) (MinPercentBatch cfg);
               systemCondition = evaluate (collectedSystemWitnesses c) (totalSystemWitnesses c)
                                   (MinNumberSystem cfg) (MinPercentSystem cfg)
           in Inr (OperatorFnc cfg batchCondition systemCondition)))"

section \<open>Witness selection\<close>

fun isExcluded :: "Witness \<Rightarrow> Witness list \<Rightarrow> bool" where
  "isExcluded witness [] = False"
| "isExcluded witness (e # excluded) =
     (if URI witness = URI e then True else isExcluded witness excluded)"

text \<open>
  \<^verbatim>\<open>intersection\<close> and \<^verbatim>\<open>difference\<close> work on a hash table from URI text to a flag.
  The first loop of each fills the table, the second walks the other list.
\<close>

fun intersectionLoop :: "(string \<rightharpoonup> bool) \<Rightarrow> Witness list \<Rightarrow> Witness list" where
  "intersectionLoop hash [] = []"
| "intersectionLoop hash (e # b) =
     (case hash (URI e) of
        Some False \<Rightarrow> e # intersectionLoop (hash(URI e \<mapsto> True)) b
      | _ \<Rightarrow> intersectionLoop hash b)"

definition intersection :: "Witness list \<Rightarrow> Witness list \<Rightarrow> Witness list" where
  "intersection a b = intersectionLoop (foldl (\<lambda>hash e. hash(URI e \<mapsto> False)) Map.empty a) b"

definition difference :: "Witness list \<Rightarrow> Witness list \<Rightarrow> Witness list" where
  "difference a b =
     (let hash = foldl (\<lambda>hash e. hash(URI e \<mapsto> True)) Map.empty b
      in filter (\<lambda>e. hash (URI e) = None) a)"

definition minSelection :: "Witness list \<Rightarrow> int \<Rightarrow> int \<Rightarrow> int \<Rightarrow> Witness list \<Rightarrow> int" where
  \<comment> \<open>the local variable \<^verbatim>\<open>minSelection\<close> of \<^verbatim>\<open>selectMinWitnesses\<close> at the call of the strategy\<close>
  "minSelection eligible minNumber minPercent totalWitnesses preferred =
     (if 0 < minNumber then minNumber - int (length preferred)
      else if 0 \<le> minPercent then
        f64_Ceil (f64_mul (f64_div (float64 minPercent) (float64 maxPercent))
                          (float64 totalWitnesses)) - int (length preferred)
      else int (length eligible) - int (length preferred))"

definition selectMinWitnesses ::
  "WitnessPolicy \<Rightarrow> Witness list \<Rightarrow> int \<Rightarrow> int \<Rightarrow> int \<Rightarrow> Witness list \<Rightarrow> error + Witness list" where
  "selectMinWitnesses wp eligible minNumber minPercent totalWitnesses preferred =
     (case selector wp (difference eligible preferred)
             (minSelection eligible minNumber minPercent totalWitnesses preferred) of
        Inl err \<Rightarrow> Inl err
      | Inr selection \<Rightarrow> Inr (preferred @ selection))"

text \<open>The state of the partition loop of \<^verbatim>\<open>selectBatchAndSystemWitnesses\<close>.\<close>

record eligibility =
  eligibleBatchWitnesses :: "Witness list"
  eligibleSystemWitnesses :: "Witness list"
  totalSystem :: int
  totalBatch :: int

definition partitionWitness ::
  "WitnessPolicyConfig \<Rightarrow> Witness list \<Rightarrow> eligibility \<Rightarrow> Witness \<Rightarrow> eligibility" where
  \<comment> \<open>one iteration of the loop\<close>
  "partitionWitness cfg exclude st w =
     (let logOK = checkLog (LogRequired cfg) (HasLog w) in
      case Type w of
        WitnessTypeBatch \<Rightarrow>
          (let st1 = st\<lparr>totalBatch := totalBatch st + 1\<rparr>
           in if logOK \<and> \<not> isExcluded w exclude
              then st1\<lparr>eligibleBatchWitnesses := eligibleBatchWitnesses st1 @ [w]\<rparr> else st1)
      | WitnessTypeSystem \<Rightarrow>
          (let st1 = st\<lparr>totalSystem := totalSystem st + 1\<rparr>
           in if logOK \<and> \<not> isExcluded w exclude
              then st1\<lparr>eligibleSystemWitnesses := eligibleSystemWitnesses st1 @ [w]\<rparr> else st1)
      | WitnessTypeOther \<Rightarrow> st)"

fun partitionWitnesses ::
  "WitnessPolicyConfig \<Rightarrow> Witness list \<Rightarrow> eligibility \<Rightarrow> Witness list \<Rightarrow> eligibility" where
  "partitionWitnesses cfg exclude st [] = st"
| "partitionWitnesses cfg exclude st (w # ws) =
     partitionWitnesses cfg exclude (partitionWitness cfg exclude st w) ws"

definition noEligible :: eligibility where
  "noEligible = \<lparr>eligibleBatchWitnesses = [], eligibleSystemWitnesses = [],
                  totalSystem = 0, totalBatch = 0\<rparr>"

definition commonWitnesses :: "WitnessPolicyConfig \<Rightarrow> eligibility \<Rightarrow> Witness list" where
  \<comment> \<open>the local variable \<^verbatim>\<open>commonWitnesses\<close>: empty unless the operator is \<open>AND\<close>\<close>
  "commonWitnesses cfg st =
     (if Operator cfg = AND
      then intersection (eligibleBatchWitnesses st) (eligibleSystemWitnesses st) else [])"

definition selectBatchAndSystemWitnesses ::
  "WitnessPolicy \<Rightarrow> Witness list \<Rightarrow> WitnessPolicyConfig \<Rightarrow> Witness list
     \<Rightarrow> error + (Witness list \<times> Witness list)" where
  "selectBatchAndSystemWitnesses wp witnesses cfg exclude =
     (let st = partitionWitnesses cfg exclude noEligible witnesses;
          common = commonWitnesses cfg st
      in case (if eligibleBatchWitnesses st \<noteq> []
               then (case selectMinWitnesses wp (eligibleBatchWitnesses st) (MinNumberBatch cfg)
                            (MinPercentBatch cfg) (totalBatch st) common of
                       Inl err \<Rightarrow> Inl (Wrap ''select batch witnesses'' err)
                     | Inr selected \<Rightarrow> Inr selected)
               else Inr []) of
           Inl err \<Rightarrow> Inl err
         | Inr selectedBatchWitnesses \<Rightarrow>
             (case selectMinWitnesses wp (eligibleSystemWitnesses st) (MinNumberSystem cfg)
                     (MinPercentSystem cfg) (totalSystem st) common of
                Inl err \<Rightarrow> Inl (Wrap ''select system witnesses'' err)
              | Inr selectedSystemWitnesses \<Rightarrow>
                  Inr (selectedBatchWitnesses, selectedSystemWitnesses)))"

definition Select :: "WitnessPolicy \<Rightarrow> Witness list \<Rightarrow> Witness list \<Rightarrow> error + Witness list" where
  "Select wp witnesses exclude =
     (case getWitnessPolicyConfig wp of
        Inl err \<Rightarrow> Inl err
      | Inr cfg \<Rightarrow>
          (case selectBatchAndSystemWitnesses wp witnesses cfg exclude of
             Inl err \<Rightarrow> Inl err
           | Inr (selectedBatchWitnesses, selectedSystemWitnesses) \<Rightarrow>
               if Operator cfg = AND
               then Inr (selectedBatchWitnesses @ selectedSystemWitnesses)
               else if length selectedBatchWitnesses = 0 \<or>
                       length selectedSystemWitnesses < length selectedBatchWitnesses
               then Inr selectedSystemWitnesses
               else Inr selectedBatchWitnesses))"

text \<open>
  Modelled from the spec: a selection strategy (package \<^verbatim>\<open>selector/random\<close> is not part
  of the sources). The spec asks a strategy for \<open>n\<close> of the candidates without
  duplicates, and for an error, not a truncation, when there are fewer than \<open>n\<close>. The
  default draws at random; \<open>firstSelector\<close> is the strategy that draws the first \<open>n\<close>.
\<close>

definition firstSelector :: "Witness list \<Rightarrow> int \<Rightarrow> error + Witness list" where
  "firstSelector witnesses n =
     (if int (length witnesses) < n then Inl (Err ''unable to select witnesses'')
      else Inr (take (nat n) witnesses))"

definition selectsCandidates :: "(Witness list \<Rightarrow> int \<Rightarrow> error + Witness list) \<Rightarrow> bool" where
  \<comment> \<open>the contract of a strategy: what it returns, it took from the candidates\<close>
  "selectsCandidates sel \<longleftrightarrow> (\<forall>candidates n chosen. sel candidates n = Inr chosen \<longrightarrow> set chosen \<subseteq> set candidates)"

section \<open>The witness store\<close>

subsection \<open>The storage backend\<close>

text \<open>
  The backend behind \<^verbatim>\<open>storage.Store\<close> is an external collaborator. It is modelled as the
  in-memory provider the tests run the store on: a table of entries with unique keys, each
  holding a value and the tags of its last write. \<^verbatim>\<open>Put\<close> overwrites value and tags
  of an existing key, \<^verbatim>\<open>Batch\<close> applies its operations in order (an operation without
  a value deletes), \<^verbatim>\<open>Query\<close> takes an expression \<^verbatim>\<open>name:value\<close> and returns an
  iterator over a snapshot of the entries carrying that tag. A backend that is not
  \<open>available\<close> fails every call; the iterator of the in-memory provider never fails, so
  the error returns of the source after \<^verbatim>\<open>Next\<close>, \<^verbatim>\<open>Key\<close> and \<^verbatim>\<open>Value\<close> have no branch.

  A stored value is a JSON document. \<open>WitnessJSON r\<close> is the document
  \<^verbatim>\<open>json.Marshal\<close> writes for the record \<open>r\<close> (for a \<^verbatim>\<open>Witness\<close>, which has no proof
  field, the record with \<open>Proof = None\<close>); any other byte string is \<open>NotJSON\<close>, on which
  \<^verbatim>\<open>json.Unmarshal\<close> fails.
\<close>

record Tag =
  Name :: string
  Value :: string

datatype stored = WitnessJSON WitnessProof | NotJSON string

record entry =
  entryKey :: string
  entryValue :: stored
  entryTags :: "Tag list"

record Operation =
  opKey :: string
  opValue :: "stored option"
  opTags :: "Tag list"

record backend =
  entries :: "entry list"
  available :: bool

definition store_Put :: "backend \<Rightarrow> string \<Rightarrow> stored \<Rightarrow> Tag list \<Rightarrow> error + backend" where
  "store_Put st key v tags =
     (if \<not> available st then Inl (Err ''put error'')
      else if key \<in> set (map entryKey (entries st))
      then Inr (st\<lparr>entries := map (\<lambda>e. if entryKey e = key
                                        then \<lparr>entryKey = key, entryValue = v, entryTags = tags\<rparr>
                                        else e) (entries st)\<rparr>)
      else Inr (st\<lparr>entries := entries st @ [\<lparr>entryKey = key, entryValue = v, entryTags = tags\<rparr>]\<rparr>))"

definition store_delete :: "backend \<Rightarrow> string \<Rightarrow> backend" where
  "store_delete st key = st\<lparr>entries := filter (\<lambda>e. entryKey e \<noteq> key) (entries st)\<rparr>"

fun applyOperations :: "backend \<Rightarrow> Operation list \<Rightarrow> error + backend" where
  "applyOperations st [] = Inr st"
| "applyOperations st (op # ops) =
     (case opValue op of
        None \<Rightarrow> applyOperations (store_delete st (opKey op)) ops
      | Some v \<Rightarrow>
          (case store_Put st (opKey op) v (opTags op) of
             Inl err \<Rightarrow> Inl err
           | Inr st' \<Rightarrow> applyOperations st' ops))"

definition store_Batch :: "backend \<Rightarrow> Operation list \<Rightarrow> error + backend" where
  "store_Batch st operations =
     (if \<not> available st then Inl (Err ''batch error'') else applyOperations st operations)"

definition hasTag :: "string \<Rightarrow> string \<Rightarrow> entry \<Rightarrow> bool" where
  "hasTag name v e = (\<lparr>Name = name, Value = v\<rparr> \<in> set (entryTags e))"

definition store_Query :: "backend \<Rightarrow> string \<Rightarrow> error + entry list" where
  \<comment> \<open>the result is the iterator: the matching entries, read one by one with \<^verbatim>\<open>Next\<close>\<close>
  "store_Query st expression =
     (if \<not> available st then Inl (Err ''query error'')
      else let name = takeWhile (\<lambda>c. c \<noteq> CHR '':'') expression;
               v = drop 1 (dropWhile (\<lambda>c. c \<noteq> CHR '':'') expression)
           in Inr (filter (hasTag name v) (entries st)))"

definition marshalWitness :: "Witness \<Rightarrow> stored" where
  \<comment> \<open>\<^verbatim>\<open>json.Marshal\<close> of a \<^verbatim>\<open>Witness\<close>, which does not fail on these fields\<close>
  "marshalWitness w = WitnessJSON (Witness.extend w (WitnessProof.fields None))"

definition unmarshalWitnessProof :: "stored \<Rightarrow> error + WitnessProof" where
  \<comment> \<open>\<^verbatim>\<open>json.Unmarshal\<close> into a \<^verbatim>\<open>WitnessProof\<close>\<close>
  "unmarshalWitnessProof v =
     (case v of WitnessJSON r \<Rightarrow> Inr r | NotJSON s \<Rightarrow> Inl (Err ''invalid character''))"

subsection \<open>Text helpers of the standard library\<close>

definition base64Alphabet :: string where
  "base64Alphabet = ''ABCDEFGHIJKLMNOPQRSTUVWXYZabcdefghijklmnopqrstuvwxyz0123456789-_''"

definition base64Char :: "int \<Rightarrow> char" where
  "base64Char i = base64Alphabet ! nat (i mod 64)"

fun encodeSextets :: "int list \<Rightarrow> string" where
  "encodeSextets (a # b # c # rest) =
     [base64Char (a div 4), base64Char ((a mod 4) * 16 + b div 16),
      base64Char ((b mod 16) * 4 + c div 64), base64Char (c mod 64)] @ encodeSextets rest"
| "encodeSextets [a, b] =
     [base64Char (a div 4), base64Char ((a mod 4) * 16 + b div 16), base64Char ((b mod 16) * 4)]"
| "encodeSextets [a] = [base64Char (a div 4), base64Char ((a mod 4) * 16)]"
| "encodeSextets [] = []"

definition RawURLEncoding :: "string \<Rightarrow> string" where
  \<comment> \<open>\<^verbatim>\<open>base64.RawURLEncoding.EncodeToString\<close>: URL-safe alphabet, no padding\<close>
  "RawURLEncoding s = encodeSextets (map of_char s)"

function showDigits :: "int \<Rightarrow> string" where
  "showDigits n = (if n < 10 then [char_of (48 + n)] else showDigits (n div 10) @ [char_of (48 + n mod 10)])"
  by pat_completeness auto
termination
  by (relation "measure nat") auto

definition showInt :: "int \<Rightarrow> string" where
  \<comment> \<open>the verb \<^verbatim>\<open>%d\<close>\<close>
  "showInt i = (if i < 0 then CHR ''-'' # showDigits (- i) else showDigits i)"

fun joinWith :: "string \<Rightarrow> string list \<Rightarrow> string" where
  "joinWith sep [] = []"
| "joinWith sep [x] = x"
| "joinWith sep (x # y # ys) = x @ sep @ joinWith sep (y # ys)"

definition showURLs :: "string list \<Rightarrow> string" where
  \<comment> \<open>the verb \<^verbatim>\<open>%s\<close> on a slice of URLs: the elements between brackets, separated by a space\<close>
  "showURLs urls = ''['' @ joinWith '' '' urls @ '']''"

subsection \<open>The store operations\<close>

definition anchorIndex :: string where
  "anchorIndex = ''anchorID''"

definition expiryTagName :: string where
  "expiryTagName = ''ExpiryTime''"

record Store =
  store :: backend
  expiryPeriod :: int

definition anchorQuery :: "string \<Rightarrow> string" where
  \<comment> \<open>\<^verbatim>\<open>fmt.Sprintf("%s:%s", anchorIndex, anchorIDEncoded)\<close>\<close>
  "anchorQuery anchorID = anchorIndex @ '':'' @ RawURLEncoding anchorID"

definition putOperation :: "Store \<Rightarrow> int \<Rightarrow> string \<Rightarrow> string \<Rightarrow> Witness \<Rightarrow> Operation" where
  \<comment> \<open>the operation built in one iteration of the loop of \<^verbatim>\<open>Put\<close>\<close>
  "putOperation s now key anchorIDEncoded w =
     \<lparr>opKey = key, opValue = Some (marshalWitness w),
      opTags = [\<lparr>Name = anchorIndex, Value = anchorIDEncoded\<rparr>,
                \<lparr>Name = expiryTagName, Value = showInt ((now + expiryPeriod s) div 1000000000)\<rparr>]\<rparr>"

definition Put :: "Store \<Rightarrow> int \<Rightarrow> (nat \<Rightarrow> string) \<Rightarrow> string \<Rightarrow> Witness list \<Rightarrow> error option \<times> Store" where
  \<comment> \<open>\<open>now\<close> is the clock in nanoseconds and \<open>uuid i\<close> the key drawn in iteration \<open>i\<close>\<close>
  "Put s now uuid anchorID witnesses =
     (let anchorIDEncoded = RawURLEncoding anchorID;
          operations = map (\<lambda>(i, w). putOperation s now (uuid i) anchorIDEncoded w)
                           (enumerate 0 witnesses)
      in case store_Batch (store s) operations of
           Inl err \<Rightarrow>
             (Some (Transient (Wrap (''failed to store witnesses for anchorID['' @ anchorID @ '']'') err)), s)
         | Inr st' \<Rightarrow> (None, s\<lparr>store := st'\<rparr>))"

definition Delete :: "Store \<Rightarrow> string \<Rightarrow> error option \<times> Store" where
  "Delete s anchorID =
     (let query = anchorQuery anchorID in
      case store_Query (store s) query of
        Inl err \<Rightarrow> (Some (Transient (Wrap (''failed to get witnesses for['' @ query @ '']'') err)), s)
      | Inr iter \<Rightarrow>
          if iter = [] then (None, s)
          else let witnessKeys = map entryKey iter;
                   operations = map (\<lambda>k. \<lparr>opKey = k, opValue = None, opTags = []\<rparr>) witnessKeys
               in (case store_Batch (store s) operations of
                     Inl err \<Rightarrow>
                       (Some (Transient (Wrap (''failed to delete witnesses for anchorID['' @ anchorID @ '']'') err)), s)
                   | Inr st' \<Rightarrow> (None, s\<lparr>store := st'\<rparr>)))"

fun unmarshalAll :: "string \<Rightarrow> entry list \<Rightarrow> error + WitnessProof list" where
  \<comment> \<open>the loop of \<^verbatim>\<open>Get\<close>\<close>
  "unmarshalAll anchorID [] = Inr []"
| "unmarshalAll anchorID (e # iter) =
     (case unmarshalWitnessProof (entryValue e) of
        Inl err \<Rightarrow>
          Inl (Wrap (''failed to unmarshal anchor witness from store value for anchorID['' @ anchorID @ '']'') err)
      | Inr witness \<Rightarrow>
          (case unmarshalAll anchorID iter of
             Inl err \<Rightarrow> Inl err
           | Inr witnesses \<Rightarrow> Inr (witness # witnesses)))"

definition Get :: "Store \<Rightarrow> string \<Rightarrow> error + WitnessProof list" where
  "Get s anchorID =
     (let query = anchorQuery anchorID in
      case store_Query (store s) query of
        Inl err \<Rightarrow> Inl (Transient (Wrap (''failed to get witnesses for['' @ query @ '']'') err))
      | Inr iter \<Rightarrow>
          (case unmarshalAll anchorID iter of
             Inl err \<Rightarrow> Inl err
           | Inr witnesses \<Rightarrow>
               if length witnesses = 0
               then Inl (Err (''anchorID['' @ anchorID @ ''] not found in the store''))
               else Inr witnesses))"

definition getWitnessesMap :: "string list \<Rightarrow> (string \<rightharpoonup> bool)" where
  "getWitnessesMap witnesses =
     foldl (\<lambda>witnessesMap w. if witnessesMap w = None then witnessesMap(w \<mapsto> True) else witnessesMap)
           Map.empty witnesses"

fun updateLoop ::
  "string \<Rightarrow> (string \<rightharpoonup> bool) \<Rightarrow> (WitnessProof \<Rightarrow> WitnessProof) \<Rightarrow> backend \<Rightarrow> int \<Rightarrow> entry list
     \<Rightarrow> error option \<times> backend \<times> int" where
  \<comment> \<open>the loop of \<^verbatim>\<open>updateWitnessProof\<close> over the iterator; the counter is \<^verbatim>\<open>updatedNo\<close>\<close>
  "updateLoop anchorID witnessesMap updateFnc st updatedNo [] = (None, st, updatedNo)"
| "updateLoop anchorID witnessesMap updateFnc st updatedNo (e # iter) =
     (case unmarshalWitnessProof (entryValue e) of
        Inl err \<Rightarrow>
          (Some (Wrap (''failed to unmarshal anchor witness from store value for anchorID['' @ anchorID @ '']'') err),
           st, updatedNo)
      | Inr w \<Rightarrow>
          if witnessesMap (URI w) \<noteq> None
          then (case store_Put st (entryKey e) (WitnessJSON (updateFnc w))
                       [\<lparr>Name = anchorIndex, Value = RawURLEncoding anchorID\<rparr>] of
                  Inl err \<Rightarrow>
                    (Some (Transient (Wrap (''failed to add proof for anchorID['' @ anchorID @
                                           ''] and witness['' @ URI w @ '']'') err)),
                     st, updatedNo)
                | Inr st' \<Rightarrow> updateLoop anchorID witnessesMap updateFnc st' (updatedNo + 1) iter)
          else updateLoop anchorID witnessesMap updateFnc st updatedNo iter)"

definition updateWitnessProof ::
  "Store \<Rightarrow> string \<Rightarrow> string list \<Rightarrow> (WitnessProof \<Rightarrow> WitnessProof) \<Rightarrow> error option \<times> Store" where
  "updateWitnessProof s anchorID witnesses updateFnc =
     (let query = anchorQuery anchorID in
      case store_Query (store s) query of
        Inl err \<Rightarrow> (Some (Transient (Wrap (''failed to get witnesses for['' @ query @ '']'') err)), s)
      | Inr iter \<Rightarrow>
          (case updateLoop anchorID (getWitnessesMap witnesses) updateFnc (store s) 0 iter of
             (Some err, st', updatedNo) \<Rightarrow> (Some err, s\<lparr>store := st'\<rparr>)
           | (None, st', updatedNo) \<Rightarrow>
               if updatedNo = 0
               then (Some (Err (''witness'' @ showURLs witnesses @ '' not found for anchorID['' @ anchorID @ '']'')),
                     s\<lparr>store := st'\<rparr>)
               else (None, s\<lparr>store := st'\<rparr>)))"

definition AddProof :: "Store \<Rightarrow> string \<Rightarrow> string \<Rightarrow> char list option \<Rightarrow> error option \<times> Store" where
  "AddProof s anchorID witness p = updateWitnessProof s anchorID [witness] (\<lambda>wf. wf\<lparr>Proof := p\<rparr>)"

definition UpdateWitnessSelection :: "Store \<Rightarrow> string \<Rightarrow> string list \<Rightarrow> bool \<Rightarrow> error option \<times> Store" where
  "UpdateWitnessSelection s anchorID witnesses selected =
     updateWitnessProof s anchorID witnesses (\<lambda>wf. wf\<lparr>Selected := selected\<rparr>)"

section \<open>Example inputs\<close>

definition batchWitness :: "string \<Rightarrow> bool \<Rightarrow> Witness" where
  "batchWitness uri hasLog = \<lparr>Type = WitnessTypeBatch, URI = uri, HasLog = hasLog, Selected = False\<rparr>"

definition systemWitness :: "string \<Rightarrow> bool \<Rightarrow> Witness" where
  "systemWitness uri hasLog = \<lparr>Type = WitnessTypeSystem, URI = uri, HasLog = hasLog, Selected = False\<rparr>"

definition batchProof :: "string \<Rightarrow> char list option \<Rightarrow> WitnessProof" where
  "batchProof uri p =
     \<lparr>Type = WitnessTypeBatch, URI = uri, HasLog = True, Selected = True, Proof = p\<rparr>"

definition policyWith :: "WitnessPolicyConfig \<Rightarrow> WitnessPolicy" where
  \<comment> \<open>an evaluator whose cache holds the given configuration and whose strategy is \<open>firstSelector\<close>\<close>
  "policyWith cfg = \<lparr>getWitnessPolicyConfig = Inr cfg, selector = firstSelector\<rparr>"

definition oneOfEach :: "Operator \<Rightarrow> WitnessPolicyConfig" where
  \<comment> \<open>the policy \<^verbatim>\<open>MinNumber(1,batch) MinNumber(1,system)\<close> under the given operator\<close>
  "oneOfEach op = \<lparr>MinNumberSystem = 1, MinNumberBatch = 1, MinPercentSystem = 0,
                    MinPercentBatch = 0, Operator = op, LogRequired = False\<rparr>"

definition allBatch :: WitnessPolicyConfig where
  \<comment> \<open>the policy \<^verbatim>\<open>MinPercent(100,batch) AND MinPercent(0,system)\<close> of scenario S1\<close>
  "allBatch = \<lparr>MinNumberSystem = 0, MinNumberBatch = 0, MinPercentSystem = 0,
                MinPercentBatch = 100, Operator = AND, LogRequired = False\<rparr>"

definition halfBatchWithLog :: WitnessPolicyConfig where
  \<comment> \<open>the policy \<^verbatim>\<open>LogRequired MinPercent(50,batch)\<close> of scenario S4\<close>
  "halfBatchWithLog = \<lparr>MinNumberSystem = 0, MinNumberBatch = 0, MinPercentSystem = 0,
                        MinPercentBatch = 50, Operator = AND, LogRequired = True\<rparr>"

definition twoOfThree :: "WitnessProof list" where
  \<comment> \<open>scenario S1: three batch witnesses, two of which have delivered a proof\<close>
  "twoOfThree = [batchProof ''a'' (Some ''p''), batchProof ''b'' (Some ''p''), batchProof ''c'' None]"

section \<open>Vocabulary for the store properties\<close>

definition anchorTag :: "string \<Rightarrow> Tag" where
  "anchorTag anchorID = \<lparr>Name = anchorIndex, Value = RawURLEncoding anchorID\<rparr>"

definition storedFor :: "string \<Rightarrow> entry \<Rightarrow> bool" where
  \<comment> \<open>the entry is indexed under the anchor\<close>
  "storedFor anchorID e = hasTag anchorIndex (RawURLEncoding anchorID) e"

definition recordIn :: "string list \<Rightarrow> entry \<Rightarrow> bool" where
  \<comment> \<open>the entry holds a witness record whose URI is one of the given\<close>
  "recordIn urls e = (case entryValue e of WitnessJSON r \<Rightarrow> URI r \<in> set urls | NotJSON x \<Rightarrow> False)"

definition decodable :: "entry \<Rightarrow> bool" where
  "decodable e = (case entryValue e of WitnessJSON r \<Rightarrow> True | NotJSON x \<Rightarrow> False)"

definition hasWitness :: "Store \<Rightarrow> string \<Rightarrow> string list \<Rightarrow> bool" where
  \<comment> \<open>some record stored for the anchor has one of the given URIs\<close>
  "hasWitness s anchorID urls =
     list_ex (\<lambda>e. storedFor anchorID e \<and> recordIn urls e) (entries (store s))"

definition healthy :: "Store \<Rightarrow> string \<Rightarrow> bool" where
  \<comment> \<open>the backend answers, its keys are unique and the values stored for the anchor decode\<close>
  "healthy s anchorID \<longleftrightarrow>
     available (store s) \<and> distinct (map entryKey (entries (store s))) \<and>
     list_all decodable (filter (storedFor anchorID) (entries (store s)))"

definition rewritten :: "string \<Rightarrow> (WitnessProof \<Rightarrow> WitnessProof) \<Rightarrow> entry \<Rightarrow> entry" where
  \<comment> \<open>the entry written back for a matched record: same key, updated record, anchor tag only\<close>
  "rewritten anchorID updateFnc e =
     (case entryValue e of
        WitnessJSON r \<Rightarrow> \<lparr>entryKey = entryKey e, entryValue = WitnessJSON (updateFnc r),
                           entryTags = [anchorTag anchorID]\<rparr>
      | NotJSON x \<Rightarrow> e)"

definition updateEntry :: "string \<Rightarrow> string list \<Rightarrow> (WitnessProof \<Rightarrow> WitnessProof) \<Rightarrow> entry \<Rightarrow> entry" where
  "updateEntry anchorID urls updateFnc e =
     (if storedFor anchorID e \<and> recordIn urls e then rewritten anchorID updateFnc e else e)"

definition notFound :: "string list \<Rightarrow> string \<Rightarrow> error" where
  \<comment> \<open>the error of \<^verbatim>\<open>updateWitnessProof\<close> when it updated nothing\<close>
  "notFound urls anchorID = Err (''witness'' @ showURLs urls @ '' not found for anchorID['' @ anchorID @ '']'')"

definition emptyStore :: Store where
  "emptyStore = \<lparr>store = \<lparr>entries = [], available = True\<rparr>, expiryPeriod = 10000000000\<rparr>"

definition exampleKey :: "nat \<Rightarrow> string" where
  "exampleKey i = ''key-'' @ showInt (int i)"

definition exampleStore :: Store where
  \<comment> \<open>two batch witnesses put for the anchor \<open>id\<close> at 5 s, expiring at 15 s\<close>
  "exampleStore =
     snd (Put emptyStore 5000000000 exampleKey ''id''
            [batchWitness ''https://domain1.com/service'' True,
             batchWitness ''https://domain2.com/service'' True])"

definition exampleEntry :: entry where
  \<comment> \<open>the entry \<open>Put\<close> created for the first witness of \<open>exampleStore\<close>\<close>
  "exampleEntry =
     \<lparr>entryKey = ''key-0'',
      entryValue = WitnessJSON \<lparr>Type = WitnessTypeBatch, URI = ''https://domain1.com/service'',
                                HasLog = True, Selected = False, Proof = None\<rparr>,
      entryTags = [\<lparr>Name = ''anchorID'', Value = ''aWQ''\<rparr>, \<lparr>Name = ''ExpiryTime'', Value = ''15''\<rparr>]\<rparr>"

section \<open>Vocabulary for the policy properties\<close>

text \<open>The quantities of the spec's per-class formula, in exact arithmetic.\<close>

definition totalOf :: "WitnessType \<Rightarrow> WitnessProof list \<Rightarrow> int" where
  \<comment> \<open>the number of records of the class\<close>
  "totalOf ty witnesses = int (length (filter (\<lambda>w. Type w = ty) witnesses))"

definition collectedOf :: "WitnessPolicyConfig \<Rightarrow> WitnessType \<Rightarrow> WitnessProof list \<Rightarrow> int" where
  \<comment> \<open>the number of records of the class the loop of \<open>Evaluate\<close> counts as collected\<close>
  "collectedOf cfg ty witnesses =
     int (length (filter (\<lambda>w. Type w = ty \<and> checkLog (LogRequired cfg) (HasLog w)
                               \<and> Proof w \<noteq> None) witnesses))"

definition satisfiedClass :: "int \<Rightarrow> int \<Rightarrow> int \<Rightarrow> int \<Rightarrow> bool" where
  \<comment> \<open>the spec's \<open>satisfied_class\<close>; the ratio of a class without records is 100 percent\<close>
  "satisfiedClass minNumber minPercent collected total' \<longleftrightarrow>
     (0 < minNumber \<and> minNumber \<le> collected) \<or>
     (of_int minPercent / 100 :: rat) \<le> (if total' = 0 then 1 else of_int collected / of_int total')"

definition percentTarget :: "int \<Rightarrow> int \<Rightarrow> int" where
  \<comment> \<open>the spec's \<open>\<lceil>MinPercent/100 \<times> totalOfClass\<rceil>\<close>\<close>
  "percentTarget minPercent totalOfClass = \<lceil>(of_int minPercent / 100 * of_int totalOfClass :: rat)\<rceil>"

text \<open>
  The quantities of the spec's selection algorithm: the witnesses of a class in the input,
  the eligible ones among them, the preferred witnesses, and the number the code asks of
  the strategy for the class.
\<close>

definition classTotal :: "WitnessType \<Rightarrow> Witness list \<Rightarrow> int" where
  \<comment> \<open>the number of witnesses of the class in the input, eligible or not\<close>
  "classTotal ty witnesses = int (length (filter (\<lambda>w. Type w = ty) witnesses))"

definition classEligible ::
  "WitnessPolicyConfig \<Rightarrow> Witness list \<Rightarrow> WitnessType \<Rightarrow> Witness list \<Rightarrow> Witness list" where
  \<comment> \<open>the witnesses of the class that pass the log check and are not excluded\<close>
  "classEligible cfg exclude ty witnesses =
     filter (\<lambda>w. Type w = ty \<and> checkLog (LogRequired cfg) (HasLog w) \<and> \<not> isExcluded w exclude) witnesses"

definition preferredOf :: "WitnessPolicyConfig \<Rightarrow> Witness list \<Rightarrow> Witness list \<Rightarrow> Witness list" where
  \<comment> \<open>the witnesses eligible in both classes, under \<open>AND\<close> only\<close>
  "preferredOf cfg exclude witnesses =
     (if Operator cfg = AND
      then intersection (classEligible cfg exclude WitnessTypeBatch witnesses)
                        (classEligible cfg exclude WitnessTypeSystem witnesses)
      else [])"

definition minNumberOf :: "WitnessPolicyConfig \<Rightarrow> WitnessType \<Rightarrow> int" where
  "minNumberOf cfg ty =
     (case ty of WitnessTypeBatch \<Rightarrow> MinNumberBatch cfg | WitnessTypeSystem \<Rightarrow> MinNumberSystem cfg
      | WitnessTypeOther \<Rightarrow> 0)"

definition minPercentOf :: "WitnessPolicyConfig \<Rightarrow> WitnessType \<Rightarrow> int" where
  "minPercentOf cfg ty =
     (case ty of WitnessTypeBatch \<Rightarrow> MinPercentBatch cfg | WitnessTypeSystem \<Rightarrow> MinPercentSystem cfg
      | WitnessTypeOther \<Rightarrow> 0)"

definition requested :: "WitnessPolicyConfig \<Rightarrow> Witness list \<Rightarrow> Witness list \<Rightarrow> WitnessType \<Rightarrow> int" where
  \<comment> \<open>\<open>minSelection\<close> at the fields, the eligible witnesses and the total of the class\<close>
  "requested cfg exclude witnesses ty =
     minSelection (classEligible cfg exclude ty witnesses) (minNumberOf cfg ty) (minPercentOf cfg ty)
       (classTotal ty witnesses) (preferredOf cfg exclude witnesses)"

definition overshoots :: "int \<Rightarrow> int \<Rightarrow> bool" where
  \<comment> \<open>the exact product is an integer and the float64 product lies above it\<close>
  "overshoots minPercent totalOfClass \<longleftrightarrow>
     100 dvd minPercent * totalOfClass \<and>
     of_int (minPercent * totalOfClass) / 100 <
       f64_mul (f64_div (float64 minPercent) (float64 maxPercent)) (float64 totalOfClass)"

definition fourBatch :: "Witness list" where
  \<comment> \<open>scenario S4: four batch witnesses, two of them with a log\<close>
  "fourBatch = [batchWitness ''a'' False, batchWitness ''b'' True,
                batchWitness ''c'' False, batchWitness ''d'' True]"

definition twoCommon :: "Witness list" where
  \<comment> \<open>two peers, each known as a batch and as a system witness\<close>
  "twoCommon = [batchWitness ''a'' True, batchWitness ''b'' True,
                systemWitness ''a'' True, systemWitness ''b'' True]"

definition refusingSelector :: "Witness list \<Rightarrow> int \<Rightarrow> error + Witness list" where
  \<comment> \<open>a strategy that reports a negative request instead of treating it as zero\<close>
  "refusingSelector witnesses n =
     (if n < 0 then Inl (Err ''negative number of witnesses requested'') else firstSelector witnesses n)"

section \<open>Rounding to binary64\<close>

text \<open>
  Two facts about the rounding are all the policy properties need: the result is within
  \<open>2 powi (- 53)\<close> of the argument, relatively, and an integer below \<open>2 ^ 53\<close> times a
  power of two is not changed. The witness lists considered have fewer than \<open>2 ^ 40\<close>
  elements, so every counter is converted exactly.
\<close>

lemma round_half_even_error: "\<bar>of_int (round_half_even q) - q\<bar> \<le> 1 / 2"
proof -
  define f where "f = \<lfloor>q\<rfloor>"
  have lo: "of_int f \<le> q" and hi: "q < of_int f + 1"
    unfolding f_def by linarith+
  consider "q - of_int f < 1 / 2" | "1 / 2 < q - of_int f" | "q - of_int f = 1 / 2"
    by linarith
  then show ?thesis
  proof cases
    case 1
    then have "round_half_even q = f"
      by (simp add: round_half_even_def Let_def f_def)
    with 1 lo show ?thesis by simp
  next
    case 2
    then have "round_half_even q = f + 1"
      by (simp add: round_half_even_def Let_def f_def)
    with 2 hi show ?thesis by simp
  next
    case 3
    then have "round_half_even q = f \<or> round_half_even q = f + 1"
      by (simp add: round_half_even_def Let_def f_def)
    with 3 show ?thesis by auto
  qed
qed

lemma round_half_even_of_int: "round_half_even (of_int n) = n"
  by (simp add: round_half_even_def)

lemma two_powi_pos: "0 < (2::rat) powi e"
  by (simp add: zero_less_power_int)

lemma f64_expo_le:
  assumes "0 < x"
  shows "2 powi (f64_expo x) \<le> x"
proof (cases "1 \<le> x")
  case True
  then have pos: "0 < \<lfloor>x\<rfloor>" by linarith
  have "2 ^ nat (bitlen \<lfloor>x\<rfloor> - 1) \<le> \<lfloor>x\<rfloor>"
    using bitlen_bounds[OF pos] by simp
  then have "(of_int (2 ^ nat (bitlen \<lfloor>x\<rfloor> - 1)) :: rat) \<le> of_int \<lfloor>x\<rfloor>"
    by (simp only: of_int_le_iff)
  also have "\<dots> \<le> x" by simp
  finally have "(2::rat) ^ nat (bitlen \<lfloor>x\<rfloor> - 1) \<le> x" by simp
  moreover have "0 \<le> bitlen \<lfloor>x\<rfloor> - 1"
    using pos by (auto simp: bitlen_alt_def)
  ultimately show ?thesis
    using True by (simp add: f64_expo_def power_int_def)
next
  case False
  define y where "y = 1 / x"
  have y1: "1 < y" using False assms by (simp add: y_def)
  then have pos: "0 < \<lfloor>y\<rfloor>" by linarith
  define k where "k = bitlen \<lfloor>y\<rfloor> - 1"
  have k0: "0 \<le> k" using pos by (auto simp: k_def bitlen_alt_def)
  have "\<lfloor>y\<rfloor> < 2 ^ nat (bitlen \<lfloor>y\<rfloor>)"
    using bitlen_bounds[OF pos] by simp
  then have "\<lfloor>y\<rfloor> < 2 ^ nat (k + 1)" by (simp add: k_def)
  then have "y < of_int (2 ^ nat (k + 1))"
    by (simp only: floor_less_iff)
  then have yl: "y < 2 ^ nat (k + 1)" by simp
  have "1 / 2 ^ nat (k + 1) < 1 / y"
    using yl y1 by (intro divide_strict_left_mono) auto
  then have "1 / 2 ^ nat (k + 1) < x" using assms by (simp add: y_def)
  moreover have "(2::rat) powi (- k - 1) = 1 / 2 ^ nat (k + 1)"
    using k0 by (simp add: power_int_def field_simps)
  ultimately have low: "(2::rat) powi (- k - 1) \<le> x" by simp
  show ?thesis
    using False low unfolding f64_expo_def Let_def y_def[symmetric] k_def[symmetric]
    by auto
qed

lemma f64_expo_less:
  assumes "0 < x"
  shows "x < 2 powi (f64_expo x + 1)"
proof (cases "1 \<le> x")
  case True
  then have pos: "0 < \<lfloor>x\<rfloor>" by linarith
  have b1: "1 \<le> bitlen \<lfloor>x\<rfloor>" using pos by (auto simp: bitlen_alt_def)
  have "\<lfloor>x\<rfloor> < 2 ^ nat (bitlen \<lfloor>x\<rfloor>)"
    using bitlen_bounds[OF pos] by simp
  then have "x < of_int (2 ^ nat (bitlen \<lfloor>x\<rfloor>))"
    by (simp only: floor_less_iff)
  then have "x < 2 ^ nat (bitlen \<lfloor>x\<rfloor>)" by simp
  then show ?thesis
    using True b1 by (simp add: f64_expo_def power_int_def)
next
  case False
  define y where "y = 1 / x"
  have y1: "1 < y" using False assms by (simp add: y_def)
  then have pos: "0 < \<lfloor>y\<rfloor>" by linarith
  define k where "k = bitlen \<lfloor>y\<rfloor> - 1"
  have k0: "0 \<le> k" using pos by (auto simp: k_def bitlen_alt_def)
  show ?thesis
  proof (cases "2 powi (- k) \<le> x")
    case t: True
    have "2 ^ nat k \<le> \<lfloor>y\<rfloor>"
      using bitlen_bounds[OF pos] by (simp add: k_def)
    then have "(of_int (2 ^ nat k) :: rat) \<le> of_int \<lfloor>y\<rfloor>"
      by (simp only: of_int_le_iff)
    also have "\<dots> \<le> y" by simp
    finally have "(2::rat) ^ nat k \<le> 1 / x" by (simp add: y_def)
    then have "x * 2 ^ nat k \<le> 1" using assms by (simp add: field_simps)
    then have "x \<le> 1 / 2 ^ nat k" by (simp add: pos_le_divide_eq)
    also have "1 / 2 ^ nat k = (2::rat) powi (- k)"
      using k0 by (simp add: power_int_def field_simps)
    also have "\<dots> < 2 powi (- k + 1)"
      by (intro power_int_strict_increasing) auto
    finally show ?thesis
      using False t unfolding f64_expo_def Let_def y_def[symmetric] k_def[symmetric] by simp
  next
    case f: False
    then show ?thesis
      using False unfolding f64_expo_def Let_def y_def[symmetric] k_def[symmetric] by simp
  qed
qed

text \<open>Known values: the doubles nearest to 0.1 and 0.07, and two ties.\<close>

lemma f64_round_one_tenth: "f64_round (1 / 10) = 3602879701896397 / 36028797018963968"
  by code_simp

lemma f64_round_seven_hundredths: "f64_round (7 / 100) = 1261007895663739 / 18014398509481984"
  by code_simp

lemma float64_ties_to_even:
  "float64 9007199254740993 = 9007199254740992 \<and> float64 9007199254740995 = 9007199254740996"
  by code_simp

lemma f64_round_error:
  assumes "x \<noteq> 0"
  shows "\<bar>f64_round x - x\<bar> \<le> 2 powi (f64_expo \<bar>x\<bar> - 53)"
proof -
  define e where "e = f64_expo \<bar>x\<bar>"
  define q where "q = \<bar>x\<bar> * 2 powi (52 - e)"
  define n where "n = round_half_even q"
  have fr: "f64_round x = sgn x * of_int n * 2 powi (e - 52)"
    using assms by (simp add: f64_round_def Let_def e_def q_def n_def)
  have x: "x = sgn x * q * 2 powi (e - 52)"
  proof -
    have "(2::rat) powi (52 - e) * 2 powi (e - 52) = 2 powi ((52 - e) + (e - 52))"
      by (subst power_int_add) auto
    then have "(2::rat) powi (52 - e) * 2 powi (e - 52) = 1" by simp
    then have "q * 2 powi (e - 52) = \<bar>x\<bar>"
      by (simp add: q_def mult.assoc)
    then show ?thesis by (simp add: mult.assoc sgn_mult_abs)
  qed
  have "f64_round x - x = sgn x * (of_int n - q) * 2 powi (e - 52)"
    by (subst x, subst fr) (simp add: algebra_simps)
  then have "\<bar>f64_round x - x\<bar> = \<bar>of_int n - q\<bar> * 2 powi (e - 52)"
    using assms two_powi_pos[of "e - 52"] by (simp add: abs_mult abs_sgn_eq)
  also have "\<dots> \<le> (1 / 2) * 2 powi (e - 52)"
    using round_half_even_error[of q] two_powi_pos[of "e - 52"]
    by (intro mult_right_mono) (auto simp: n_def)
  also have "(1 / 2) * (2::rat) powi (e - 52) = 2 powi (e - 53)"
  proof -
    have "(2::rat) powi (e - 53) = 2 powi ((e - 52) + (-1))" by simp
    also have "\<dots> = 2 powi (e - 52) * 2 powi (-1)"
      by (subst power_int_add) auto
    finally show ?thesis by simp
  qed
  finally show ?thesis by (simp add: e_def)
qed

lemma f64_round_relative:
  "\<bar>f64_round x - x\<bar> \<le> \<bar>x\<bar> * 2 powi (- 53)"
proof (cases "x = 0")
  case True
  then show ?thesis by (simp add: f64_round_def)
next
  case False
  define e where "e = f64_expo \<bar>x\<bar>"
  have "\<bar>f64_round x - x\<bar> \<le> 2 powi (e - 53)"
    using f64_round_error[OF False] by (simp add: e_def)
  also have "(2::rat) powi (e - 53) = 2 powi e * 2 powi (- 53)"
  proof -
    have "(2::rat) powi (e - 53) = 2 powi (e + (- 53))" by simp
    also have "\<dots> = 2 powi e * 2 powi (- 53)"
      by (subst power_int_add) auto
    finally show ?thesis .
  qed
  also have "\<dots> \<le> \<bar>x\<bar> * 2 powi (- 53)"
    using f64_expo_le[of "\<bar>x\<bar>"] False two_powi_pos[of "- 53"]
    by (intro mult_right_mono) (auto simp: e_def)
  finally show ?thesis .
qed

lemma two_powi_m53: "(2::rat) powi (- 53) = 1 / 9007199254740992"
  by (simp add: power_int_minus)

lemma f64_round_exact:
  assumes "\<bar>n\<bar> < 2 ^ 53"
  shows "f64_round (of_int n * 2 powi j) = of_int n * 2 powi j"
proof (cases "n = 0")
  case True
  then show ?thesis by (simp add: f64_round_def)
next
  case False
  define x :: rat where "x = of_int n * 2 powi j"
  define e where "e = f64_expo \<bar>x\<bar>"
  have x0: "x \<noteq> 0" using False by (simp add: x_def)
  have ax: "\<bar>x\<bar> = of_int \<bar>n\<bar> * 2 powi j"
    by (simp add: x_def abs_mult power_int_abs)
  have "(of_int \<bar>n\<bar> :: rat) < of_int (2 ^ 53)"
    using assms by (simp only: of_int_less_iff)
  then have "(of_int \<bar>n\<bar> :: rat) < 2 powi 53" by simp
  then have "\<bar>x\<bar> < 2 powi 53 * 2 powi j"
    unfolding ax using two_powi_pos[of j] by (intro mult_strict_right_mono) auto
  also have "(2::rat) powi 53 * 2 powi j = 2 powi (53 + j)"
    by (subst power_int_add) auto
  finally have up: "\<bar>x\<bar> < 2 powi (53 + j)" .
  have "2 powi e \<le> \<bar>x\<bar>"
    using f64_expo_le[of "\<bar>x\<bar>"] x0 by (simp add: e_def)
  with up have lt: "(2::rat) powi e < 2 powi (53 + j)" by simp
  have e: "e < 53 + j"
  proof (rule ccontr)
    assume "\<not> e < 53 + j"
    then have "(2::rat) powi (53 + j) \<le> 2 powi e"
      by (intro power_int_increasing) auto
    with lt show False by simp
  qed
  define d where "d = nat (52 - e + j)"
  have d: "int d = 52 - e + j" using e by (simp add: d_def)
  have "\<bar>x\<bar> * 2 powi (52 - e) = of_int \<bar>n\<bar> * (2 powi j * 2 powi (52 - e))"
    by (simp add: ax mult.assoc)
  also have "(2::rat) powi j * 2 powi (52 - e) = 2 powi (int d)"
    by (subst power_int_add[symmetric]) (auto simp: d algebra_simps)
  also have "of_int \<bar>n\<bar> * (2::rat) powi (int d) = of_int (\<bar>n\<bar> * 2 ^ d)"
    by simp
  finally have q: "\<bar>x\<bar> * 2 powi (52 - e) = of_int (\<bar>n\<bar> * 2 ^ d)" .
  have "f64_round x = sgn x * of_int (round_half_even (\<bar>x\<bar> * 2 powi (52 - e))) * 2 powi (e - 52)"
    using x0 by (simp add: f64_round_def Let_def e_def)
  also have "\<dots> = sgn x * (\<bar>x\<bar> * 2 powi (52 - e)) * 2 powi (e - 52)"
    unfolding q round_half_even_of_int ..
  also have "\<dots> = sgn x * \<bar>x\<bar> * (2 powi (52 - e) * 2 powi (e - 52))"
    by (simp add: mult.assoc)
  also have "(2::rat) powi (52 - e) * 2 powi (e - 52) = 1"
    by (subst power_int_add[symmetric]) auto
  finally show ?thesis by (simp add: x_def[symmetric] sgn_mult_abs)
qed

lemma float64_exact:
  assumes "\<bar>n\<bar> < 2 ^ 53"
  shows "float64 n = of_int n"
  using f64_round_exact[OF assms, of 0] by (simp add: float64_def)

lemma f64_round_unit:
  assumes "0 \<le> x" "x \<le> 1"
  shows "\<bar>f64_round x - x\<bar> \<le> 2 powi (- 53)"
proof -
  have "\<bar>f64_round x - x\<bar> \<le> \<bar>x\<bar> * 2 powi (- 53)" by (rule f64_round_relative)
  also have "\<dots> \<le> 1 * 2 powi (- 53)"
    using assms two_powi_pos[of "- 53"] by (intro mult_right_mono) auto
  finally show ?thesis by simp
qed

lemma quotient_gap:
  fixes t :: int
  assumes "0 < t" "t < 2 ^ 40"
  shows "(2::rat) / 9007199254740992 < 1 / (100 * of_int t)"
proof -
  have "t < 1099511627776" using assms by simp
  then have "(of_int t :: rat) < of_int 1099511627776" by (simp only: of_int_less_iff)
  then have "100 * (of_int t :: rat) < 4503599627370496" by simp
  moreover have "(0::rat) < 100 * of_int t" using assms by simp
  ultimately have "(1::rat) / 4503599627370496 < 1 / (100 * of_int t)"
    by (intro divide_strict_left_mono) auto
  then show ?thesis by simp
qed

lemma f64_compare_quotients:
  fixes c t p :: int
  assumes c: "0 \<le> c" "c \<le> t" and t: "0 < t" "t < 2 ^ 40" and p: "0 \<le> p" "p \<le> 100"
  shows "f64_round (of_int p / 100) \<le> f64_round (of_int c / of_int t)
           \<longleftrightarrow> (of_int p / 100 :: rat) \<le> of_int c / of_int t"
proof -
  define a :: rat where "a = of_int c / of_int t"
  define b :: rat where "b = of_int p / 100"
  define g :: rat where "g = 1 / (100 * of_int t)"
  define u :: rat where "u = 1 / 9007199254740992"
  have tp: "(0::rat) < of_int t" using t by simp
  have a01: "0 \<le> a" "a \<le> 1" using c t by (auto simp: a_def)
  have b01: "0 \<le> b" "b \<le> 1" using p by (auto simp: b_def)
  have ea: "\<bar>f64_round a - a\<bar> \<le> u"
    using f64_round_unit[OF a01] by (simp add: two_powi_m53 u_def)
  have eb: "\<bar>f64_round b - b\<bar> \<le> u"
    using f64_round_unit[OF b01] by (simp add: two_powi_m53 u_def)
  have gap: "2 * u < g"
    using quotient_gap[OF t] by (simp add: u_def g_def)
  have diff: "b - a = of_int (p * t - 100 * c) * g"
    using tp by (simp add: a_def b_def g_def field_simps)
  have g0: "0 < g" using tp by (simp add: g_def)
  show ?thesis
  proof (cases "p * t - 100 * c" "0::int" rule: linorder_cases)
    case equal
    then have "a = b" using diff by simp
    then show ?thesis unfolding a_def[symmetric] b_def[symmetric] by simp
  next
    case less
    then have "p * t - 100 * c \<le> - 1" by simp
    then have "(of_int (p * t - 100 * c) :: rat) \<le> of_int (- 1)"
      by (simp only: of_int_le_iff)
    then have "of_int (p * t - 100 * c) * g \<le> of_int (- 1) * g"
      using g0 by (intro mult_right_mono) auto
    then have "b - a \<le> - g" unfolding diff by simp
    with gap have "b + 2 * u < a" by linarith
    with ea eb have "f64_round b < f64_round a" "b < a" by (auto simp: abs_le_iff)
    then show ?thesis unfolding a_def[symmetric] b_def[symmetric] by simp
  next
    case greater
    then have "1 \<le> p * t - 100 * c" by simp
    then have "(of_int 1 :: rat) \<le> of_int (p * t - 100 * c)"
      by (simp only: of_int_le_iff)
    then have "of_int 1 * g \<le> of_int (p * t - 100 * c) * g"
      using g0 by (intro mult_right_mono) auto
    then have "g \<le> b - a" unfolding diff by simp
    with gap have "a + 2 * u < b" by linarith
    with ea eb have "f64_round a < f64_round b" "a < b" by (auto simp: abs_le_iff)
    then show ?thesis unfolding a_def[symmetric] b_def[symmetric] by simp
  qed
qed

lemma float64_small:
  assumes "0 \<le> n" "n < 2 ^ 40"
  shows "float64 n = of_int n"
proof -
  have "\<bar>n\<bar> < 2 ^ 53" using assms by simp
  then show ?thesis by (rule float64_exact)
qed

lemma evaluate_satisfiedClass:
  assumes c: "0 \<le> c" "c \<le> t" and t: "t < 2 ^ 40"
    and mn: "0 \<le> mn" and mp: "0 \<le> mp" "mp \<le> 100"
  shows "evaluate c t mn mp = satisfiedClass mn mp c t"
proof -
  have fc: "float64 c = of_int c" using c t by (intro float64_small) auto
  have ft: "float64 t = of_int t" using c t by (intro float64_small) auto
  have fp: "float64 mp = of_int mp" using mp by (intro float64_small) auto
  have fh: "float64 maxPercent = 100" 
    using float64_small[of 100] by (simp add: maxPercent_def)
  have n: "(mn \<noteq> 0) = (0 < mn)" using mn by auto
  show ?thesis
  proof (cases "t = 0")
    case True
    have b01: "(0::rat) \<le> of_int mp / 100" "(of_int mp / 100 :: rat) \<le> 1"
      using mp by auto
    have "(2::rat) powi (- 53) \<le> 1" by (simp add: two_powi_m53)
    with f64_round_unit[OF b01] have "\<bar>f64_round (of_int mp / 100) - of_int mp / 100\<bar> \<le> 1"
      by (rule order_trans)
    with b01 have "f64_round (of_int mp / 100) \<le> 100" by linarith
    with True b01 show ?thesis
      by (simp add: evaluate_def satisfiedClass_def Let_def fh fp f64_div_def)
  next
    case False
    then have t0: "0 < t" using c by simp
    show ?thesis
      using False n f64_compare_quotients[OF c t0 t mp]
      by (simp add: evaluate_def satisfiedClass_def Let_def fh fp fc ft f64_div_def)
  qed
qed

section \<open>The loops as list comprehensions\<close>

lemma count_collectedBatch:
  "collectedBatchWitnesses (countWitnesses cfg c ws) =
     collectedBatchWitnesses c +
     int (length (filter (\<lambda>w. Type w = WitnessTypeBatch \<and> checkLog (LogRequired cfg) (HasLog w)
                               \<and> Proof w \<noteq> None) ws))"
  by (induction ws arbitrary: c) (auto simp: countWitness_def Let_def split: WitnessType.splits)

lemma count_collectedSystem:
  "collectedSystemWitnesses (countWitnesses cfg c ws) =
     collectedSystemWitnesses c +
     int (length (filter (\<lambda>w. Type w = WitnessTypeSystem \<and> checkLog (LogRequired cfg) (HasLog w)
                               \<and> Proof w \<noteq> None) ws))"
  by (induction ws arbitrary: c) (auto simp: countWitness_def Let_def split: WitnessType.splits)

lemma count_totalBatch:
  "totalBatchWitnesses (countWitnesses cfg c ws) =
     totalBatchWitnesses c + int (length (filter (\<lambda>w. Type w = WitnessTypeBatch) ws))"
  by (induction ws arbitrary: c) (auto simp: countWitness_def Let_def split: WitnessType.splits)

lemma count_totalSystem:
  "totalSystemWitnesses (countWitnesses cfg c ws) =
     totalSystemWitnesses c + int (length (filter (\<lambda>w. Type w = WitnessTypeSystem) ws))"
  by (induction ws arbitrary: c) (auto simp: countWitness_def Let_def split: WitnessType.splits)

lemma partition_eligibleBatch:
  "eligibleBatchWitnesses (partitionWitnesses cfg exclude st ws) =
     eligibleBatchWitnesses st @
     filter (\<lambda>w. Type w = WitnessTypeBatch \<and> checkLog (LogRequired cfg) (HasLog w)
                  \<and> \<not> isExcluded w exclude) ws"
  by (induction ws arbitrary: st) (auto simp: partitionWitness_def Let_def split: WitnessType.splits)

lemma partition_eligibleSystem:
  "eligibleSystemWitnesses (partitionWitnesses cfg exclude st ws) =
     eligibleSystemWitnesses st @
     filter (\<lambda>w. Type w = WitnessTypeSystem \<and> checkLog (LogRequired cfg) (HasLog w)
                  \<and> \<not> isExcluded w exclude) ws"
  by (induction ws arbitrary: st) (auto simp: partitionWitness_def Let_def split: WitnessType.splits)

lemma partition_totalBatch:
  "totalBatch (partitionWitnesses cfg exclude st ws) =
     totalBatch st + int (length (filter (\<lambda>w. Type w = WitnessTypeBatch) ws))"
  by (induction ws arbitrary: st) (auto simp: partitionWitness_def Let_def split: WitnessType.splits)

lemma partition_totalSystem:
  "totalSystem (partitionWitnesses cfg exclude st ws) =
     totalSystem st + int (length (filter (\<lambda>w. Type w = WitnessTypeSystem) ws))"
  by (induction ws arbitrary: st) (auto simp: partitionWitness_def Let_def split: WitnessType.splits)

lemma intersectionLoop_subset: "set (intersectionLoop hash b) \<subseteq> set b"
  by (induction b arbitrary: hash) (auto split: option.splits bool.splits)

lemma intersection_subset: "set (intersection a b) \<subseteq> set b"
  by (simp add: intersection_def intersectionLoop_subset)

lemma intersection_Nil: "intersection [] b = []"
  by (induction b) (auto simp: intersection_def)

lemma difference_subset: "set (difference a b) \<subseteq> set a"
  by (auto simp: difference_def Let_def)

lemma firstSelector_selectsCandidates: "selectsCandidates firstSelector"
  by (auto simp: selectsCandidates_def firstSelector_def split: if_splits dest: in_set_takeD)

lemma selectMinWitnesses_subset:
  assumes "selectsCandidates (selector wp)"
    and "selectMinWitnesses wp eligible mn mp tot preferred = Inr selected"
  shows "set selected \<subseteq> set preferred \<union> set eligible"
  using assms difference_subset[of eligible preferred]
  by (auto simp: selectMinWitnesses_def selectsCandidates_def split: sum.splits) blast

section \<open>Selection under the operator AND\<close>

text \<open>
  Claim C2 does not hold as stated. With one peer known as a batch and as a system witness
  and the policy \<^verbatim>\<open>MinNumber(1,batch) AND MinNumber(1,system)\<close>, the peer is the only
  preferred witness, and \<open>Select\<close> returns it twice: once in the batch selection and once
  in the system selection.
\<close>

theorem Select_AND_repeats_common:
  "Select (policyWith (oneOfEach AND)) [batchWitness ''a'' True, systemWitness ''a'' True] [] =
     Inr [systemWitness ''a'' True, systemWitness ''a'' True] \<and>
   intersection [batchWitness ''a'' True] [systemWitness ''a'' True] = [systemWitness ''a'' True] \<and>
   count_list (map URI [systemWitness ''a'' True, systemWitness ''a'' True]) ''a'' = 2"
  by code_simp

text \<open>
  Claim C2, amended: under the operator \<open>AND\<close> a successful \<open>Select\<close> returns the batch
  selection followed by the system selection, each of which is the list of preferred
  (common) witnesses followed by what the strategy chose for the class, so the preferred
  witnesses are listed once per class. As a set the result is the union of the preferred
  witnesses, the batch choice and the system choice.
\<close>

theorem Select_AND_concatenation:
  assumes cfg: "getWitnessPolicyConfig wp = Inr cfg"
    and op: "Operator cfg = AND"
    and sel: "Select wp witnesses exclude = Inr selected"
  shows "\<exists>batchSelection systemSelection.
           (let st = partitionWitnesses cfg exclude noEligible witnesses;
                preferred = intersection (eligibleBatchWitnesses st) (eligibleSystemWitnesses st)
            in (if eligibleBatchWitnesses st = [] then batchSelection = []
                else selector wp (difference (eligibleBatchWitnesses st) preferred)
                       (minSelection (eligibleBatchWitnesses st) (MinNumberBatch cfg)
                          (MinPercentBatch cfg) (totalBatch st) preferred) = Inr batchSelection) \<and>
               selector wp (difference (eligibleSystemWitnesses st) preferred)
                 (minSelection (eligibleSystemWitnesses st) (MinNumberSystem cfg)
                    (MinPercentSystem cfg) (totalSystem st) preferred) = Inr systemSelection \<and>
               selected = preferred @ batchSelection @ preferred @ systemSelection \<and>
               set selected = set preferred \<union> set batchSelection \<union> set systemSelection)"
proof -
  define st where "st = partitionWitnesses cfg exclude noEligible witnesses"
  define preferred where
    "preferred = intersection (eligibleBatchWitnesses st) (eligibleSystemWitnesses st)"
  have common: "commonWitnesses cfg st = preferred"
    using op by (simp add: commonWitnesses_def preferred_def)
  from sel cfg op obtain b s where
    bs: "selectBatchAndSystemWitnesses wp witnesses cfg exclude = Inr (b, s)"
    and r: "selected = b @ s"
    by (auto simp: Select_def split: sum.splits prod.splits)
  show ?thesis
  proof (cases "eligibleBatchWitnesses st = []")
    case True
    then have pn: "preferred = []" by (simp add: preferred_def intersection_Nil)
    from bs True common obtain ss where
      "selector wp (difference (eligibleSystemWitnesses st) preferred)
         (minSelection (eligibleSystemWitnesses st) (MinNumberSystem cfg)
            (MinPercentSystem cfg) (totalSystem st) preferred) = Inr ss"
      and "b = []" and "s = preferred @ ss"
      by (auto simp: selectBatchAndSystemWitnesses_def selectMinWitnesses_def Let_def
          simp flip: st_def split: sum.splits)
    with True pn r show ?thesis
      unfolding Let_def st_def[symmetric] preferred_def[symmetric]
      by (intro exI[of _ "[]"] exI[of _ ss]) auto
  next
    case False
    from bs False common obtain bb ss where
      "selector wp (difference (eligibleBatchWitnesses st) preferred)
         (minSelection (eligibleBatchWitnesses st) (MinNumberBatch cfg)
            (MinPercentBatch cfg) (totalBatch st) preferred) = Inr bb"
      "selector wp (difference (eligibleSystemWitnesses st) preferred)
         (minSelection (eligibleSystemWitnesses st) (MinNumberSystem cfg)
            (MinPercentSystem cfg) (totalSystem st) preferred) = Inr ss"
      and "b = preferred @ bb" and "s = preferred @ ss"
      by (auto simp: selectBatchAndSystemWitnesses_def selectMinWitnesses_def Let_def
          simp flip: st_def split: sum.splits)
    with False r show ?thesis
      unfolding Let_def st_def[symmetric] preferred_def[symmetric]
      by (intro exI[of _ bb] exI[of _ ss]) auto
  qed
qed

theorem Select_AND_concatenation_witness:
  "\<exists>batchSelection systemSelection.
     (let st = partitionWitnesses (oneOfEach AND) [] noEligible
                 [batchWitness ''a'' True, systemWitness ''a'' True, systemWitness ''b'' True];
          preferred = intersection (eligibleBatchWitnesses st) (eligibleSystemWitnesses st)
      in (if eligibleBatchWitnesses st = [] then batchSelection = []
          else selector (policyWith (oneOfEach AND)) (difference (eligibleBatchWitnesses st) preferred)
                 (minSelection (eligibleBatchWitnesses st) (MinNumberBatch (oneOfEach AND))
                    (MinPercentBatch (oneOfEach AND)) (totalBatch st) preferred) = Inr batchSelection) \<and>
         selector (policyWith (oneOfEach AND)) (difference (eligibleSystemWitnesses st) preferred)
           (minSelection (eligibleSystemWitnesses st) (MinNumberSystem (oneOfEach AND))
              (MinPercentSystem (oneOfEach AND)) (totalSystem st) preferred) = Inr systemSelection \<and>
         [systemWitness ''a'' True, systemWitness ''a'' True] =
           preferred @ batchSelection @ preferred @ systemSelection \<and>
         set [systemWitness ''a'' True, systemWitness ''a'' True] =
           set preferred \<union> set batchSelection \<union> set systemSelection)"
proof -
  have cfg: "getWitnessPolicyConfig (policyWith (oneOfEach AND)) = Inr (oneOfEach AND)"
    by (simp add: policyWith_def)
  have op: "Operator (oneOfEach AND) = AND"
    by (simp add: oneOfEach_def)
  have sel: "Select (policyWith (oneOfEach AND))
               [batchWitness ''a'' True, systemWitness ''a'' True, systemWitness ''b'' True] [] =
             Inr [systemWitness ''a'' True, systemWitness ''a'' True]"
    by code_simp
  show ?thesis
    by (rule Select_AND_concatenation [OF cfg op sel])
qed

section \<open>Selection under the operator OR\<close>

text \<open>
  Claim C5: under the operator \<open>OR\<close>, \<open>Select\<close> returns the smaller of the two assembled
  class selections and the batch selection when they are equally long; when the batch
  selection is empty it returns the system selection, whatever its size.
\<close>

theorem Select_OR_smaller:
  assumes cfg: "getWitnessPolicyConfig wp = Inr cfg"
    and op: "Operator cfg = OR"
    and bs: "selectBatchAndSystemWitnesses wp witnesses cfg exclude = Inr (batchSelected, systemSelected)"
  shows "\<exists>selected. Select wp witnesses exclude = Inr selected \<and>
           (batchSelected = [] \<longrightarrow> selected = systemSelected) \<and>
           (batchSelected \<noteq> [] \<longrightarrow>
              length selected = min (length batchSelected) (length systemSelected)) \<and>
           (batchSelected \<noteq> [] \<and> length systemSelected < length batchSelected \<longrightarrow>
              selected = systemSelected) \<and>
           (batchSelected \<noteq> [] \<and> length batchSelected \<le> length systemSelected \<longrightarrow>
              selected = batchSelected)"
  using assms by (auto simp: Select_def)

theorem Select_OR_smaller_witness:
  "\<exists>selected.
     Select (policyWith (oneOfEach OR)) [batchWitness ''a'' True, systemWitness ''b'' True] [] =
       Inr selected \<and>
     ([batchWitness ''a'' True] = [] \<longrightarrow> selected = [systemWitness ''b'' True]) \<and>
     ([batchWitness ''a'' True] \<noteq> [] \<longrightarrow>
        length selected = min (length [batchWitness ''a'' True]) (length [systemWitness ''b'' True])) \<and>
     ([batchWitness ''a'' True] \<noteq> [] \<and>
        length [systemWitness ''b'' True] < length [batchWitness ''a'' True] \<longrightarrow>
        selected = [systemWitness ''b'' True]) \<and>
     ([batchWitness ''a'' True] \<noteq> [] \<and>
        length [batchWitness ''a'' True] \<le> length [systemWitness ''b'' True] \<longrightarrow>
        selected = [batchWitness ''a'' True])"
proof -
  have cfg: "getWitnessPolicyConfig (policyWith (oneOfEach OR)) = Inr (oneOfEach OR)"
    by (simp add: policyWith_def)
  have op: "Operator (oneOfEach OR) = OR"
    by (simp add: oneOfEach_def)
  have bs: "selectBatchAndSystemWitnesses (policyWith (oneOfEach OR))
              [batchWitness ''a'' True, systemWitness ''b'' True] (oneOfEach OR) [] =
            Inr ([batchWitness ''a'' True], [systemWitness ''b'' True])"
    by code_simp
  show ?thesis
    by (rule Select_OR_smaller [OF cfg op bs])
qed

section \<open>Selection when a log is required\<close>

text \<open>
  Claim C6: when the policy requires a log, every witness \<open>Select\<close> returns has one (and
  is one of the given witnesses), for every strategy that chooses among its candidates.
\<close>

theorem Select_LogRequired_HasLog:
  assumes cfg: "getWitnessPolicyConfig wp = Inr cfg"
    and lr: "LogRequired cfg"
    and str: "selectsCandidates (selector wp)"
    and sel: "Select wp witnesses exclude = Inr selected"
    and w: "w \<in> set selected"
  shows "HasLog w \<and> w \<in> set witnesses"
proof -
  define st where "st = partitionWitnesses cfg exclude noEligible witnesses"
  have eb: "\<And>x. x \<in> set (eligibleBatchWitnesses st) \<Longrightarrow> HasLog x \<and> x \<in> set witnesses"
    using lr by (auto simp: st_def partition_eligibleBatch noEligible_def checkLog_def)
  have es: "\<And>x. x \<in> set (eligibleSystemWitnesses st) \<Longrightarrow> HasLog x \<and> x \<in> set witnesses"
    using lr by (auto simp: st_def partition_eligibleSystem noEligible_def checkLog_def)
  have cm: "\<And>x. x \<in> set (commonWitnesses cfg st) \<Longrightarrow> HasLog x \<and> x \<in> set witnesses"
    using es intersection_subset[of "eligibleBatchWitnesses st" "eligibleSystemWitnesses st"]
    by (auto simp: commonWitnesses_def split: if_splits)
  from sel cfg obtain b s where
    bs: "selectBatchAndSystemWitnesses wp witnesses cfg exclude = Inr (b, s)"
    and r: "set selected \<subseteq> set b \<union> set s"
    by (auto simp: Select_def split: sum.splits prod.splits if_splits)
  have b: "set b \<subseteq> set (commonWitnesses cfg st) \<union> set (eligibleBatchWitnesses st)"
    using bs selectMinWitnesses_subset[OF str]
    by (auto simp: selectBatchAndSystemWitnesses_def Let_def simp flip: st_def
        split: sum.splits if_splits)
  have s: "set s \<subseteq> set (commonWitnesses cfg st) \<union> set (eligibleSystemWitnesses st)"
    using bs selectMinWitnesses_subset[OF str]
    by (auto simp: selectBatchAndSystemWitnesses_def Let_def simp flip: st_def
        split: sum.splits if_splits)
  from w r b s eb es cm show ?thesis by blast
qed

theorem Select_LogRequired_HasLog_witness:
  "HasLog (batchWitness ''b'' True) \<and>
   batchWitness ''b'' True \<in> set [batchWitness ''a'' False, batchWitness ''b'' True,
                                    batchWitness ''c'' False, batchWitness ''d'' True]"
proof -
  have cfg: "getWitnessPolicyConfig (policyWith halfBatchWithLog) = Inr halfBatchWithLog"
    by (simp add: policyWith_def)
  have lr: "LogRequired halfBatchWithLog"
    by (simp add: halfBatchWithLog_def)
  have str: "selectsCandidates (selector (policyWith halfBatchWithLog))"
    by (simp add: policyWith_def firstSelector_selectsCandidates)
  have sel: "Select (policyWith halfBatchWithLog)
               [batchWitness ''a'' False, batchWitness ''b'' True,
                batchWitness ''c'' False, batchWitness ''d'' True] [] =
             Inr [batchWitness ''b'' True, batchWitness ''d'' True]"
    by code_simp
  have w: "batchWitness ''b'' True \<in> set [batchWitness ''b'' True, batchWitness ''d'' True]"
    by simp
  show ?thesis
    by (rule Select_LogRequired_HasLog [OF cfg lr str sel w])
qed

section \<open>What the evaluator counts\<close>

text \<open>
  Claim C4 does not hold as stated. The loop tests the proof field against \<^verbatim>\<open>nil\<close>, not
  its length: under the policy \<^verbatim>\<open>MinPercent(100,batch)\<close> a single batch record whose proof
  is present and empty satisfies the policy, while the same record without a proof does
  not.
\<close>

theorem Evaluate_counts_empty_proof:
  "Evaluate (policyWith allBatch) [batchProof ''a'' (Some [])] = Inr True \<and>
   Evaluate (policyWith allBatch) [batchProof ''a'' None] = Inr False \<and>
   collectedBatchWitnesses (countWitnesses allBatch zeroCounters [batchProof ''a'' (Some [])]) = 1"
  by code_simp

text \<open>
  Claim C4, amended: a record is counted as collected for its class exactly when the log
  check passes and its proof field is not \<^verbatim>\<open>nil\<close>; a proof that is present and empty
  counts. The totals count every record of the class.
\<close>

theorem countWitnesses_collected:
  "collectedBatchWitnesses (countWitnesses cfg zeroCounters witnesses) =
     int (length (filter (\<lambda>w. Type w = WitnessTypeBatch \<and> checkLog (LogRequired cfg) (HasLog w)
                               \<and> Proof w \<noteq> None) witnesses)) \<and>
   collectedSystemWitnesses (countWitnesses cfg zeroCounters witnesses) =
     int (length (filter (\<lambda>w. Type w = WitnessTypeSystem \<and> checkLog (LogRequired cfg) (HasLog w)
                               \<and> Proof w \<noteq> None) witnesses)) \<and>
   totalBatchWitnesses (countWitnesses cfg zeroCounters witnesses) =
     int (length (filter (\<lambda>w. Type w = WitnessTypeBatch) witnesses)) \<and>
   totalSystemWitnesses (countWitnesses cfg zeroCounters witnesses) =
     int (length (filter (\<lambda>w. Type w = WitnessTypeSystem) witnesses))"
  by (simp add: count_collectedBatch count_collectedSystem count_totalBatch count_totalSystem
      zeroCounters_def)

theorem countWitnesses_collected_witness:
  "collectedBatchWitnesses
     (countWitnesses allBatch zeroCounters [batchProof ''a'' (Some []), batchProof ''b'' None]) = 1"
  using countWitnesses_collected [of allBatch "[batchProof ''a'' (Some []), batchProof ''b'' None]"]
  by (simp add: batchProof_def checkLog_def)

section \<open>The evaluation formula\<close>

text \<open>
  Claim C1: for a configuration as the parser returns it, \<open>Evaluate\<close> decides each class
  by the formula \<open>satisfiedClass\<close> of the spec, over the collected and total counts of
  the class and in exact arithmetic, and combines the two classes with the operator of
  the policy; a class without records is satisfied. The float64 comparison of the code
  agrees with the exact one for lists of fewer than \<open>2 ^ 40\<close> records.
\<close>

theorem Evaluate_formula:
  assumes cfg: "getWitnessPolicyConfig wp = Inr cfg"
    and parsed: "parsedConfig cfg"
    and len: "length witnesses < 2 ^ 40"
  shows "Evaluate wp witnesses =
           Inr (case Operator cfg of
                  AND \<Rightarrow>
                    satisfiedClass (MinNumberBatch cfg) (MinPercentBatch cfg)
                      (collectedOf cfg WitnessTypeBatch witnesses) (totalOf WitnessTypeBatch witnesses) \<and>
                    satisfiedClass (MinNumberSystem cfg) (MinPercentSystem cfg)
                      (collectedOf cfg WitnessTypeSystem witnesses) (totalOf WitnessTypeSystem witnesses)
                | OR \<Rightarrow>
                    satisfiedClass (MinNumberBatch cfg) (MinPercentBatch cfg)
                      (collectedOf cfg WitnessTypeBatch witnesses) (totalOf WitnessTypeBatch witnesses) \<or>
                    satisfiedClass (MinNumberSystem cfg) (MinPercentSystem cfg)
                      (collectedOf cfg WitnessTypeSystem witnesses) (totalOf WitnessTypeSystem witnesses)) \<and>
         (totalOf WitnessTypeBatch witnesses = 0 \<longrightarrow>
            satisfiedClass (MinNumberBatch cfg) (MinPercentBatch cfg)
              (collectedOf cfg WitnessTypeBatch witnesses) (totalOf WitnessTypeBatch witnesses)) \<and>
         (totalOf WitnessTypeSystem witnesses = 0 \<longrightarrow>
            satisfiedClass (MinNumberSystem cfg) (MinPercentSystem cfg)
              (collectedOf cfg WitnessTypeSystem witnesses) (totalOf WitnessTypeSystem witnesses))"
proof -
  define c where "c = countWitnesses cfg zeroCounters witnesses"
  have cb: "collectedBatchWitnesses c = collectedOf cfg WitnessTypeBatch witnesses"
    and cs: "collectedSystemWitnesses c = collectedOf cfg WitnessTypeSystem witnesses"
    and tb: "totalBatchWitnesses c = totalOf WitnessTypeBatch witnesses"
    and ts: "totalSystemWitnesses c = totalOf WitnessTypeSystem witnesses"
    by (simp_all add: c_def count_collectedBatch count_collectedSystem count_totalBatch
        count_totalSystem zeroCounters_def collectedOf_def totalOf_def)
  have le: "\<And>P. int (length (filter P witnesses)) < 2 ^ 40"
  proof -
    fix P :: "WitnessProof \<Rightarrow> bool"
    have "length (filter P witnesses) \<le> length witnesses" by simp
    from this len have "length (filter P witnesses) < 2 ^ 40" by (rule le_less_trans)
    then show "int (length (filter P witnesses)) < 2 ^ 40"
      by (metis of_nat_less_iff of_nat_numeral of_nat_power)
  qed
  have sub: "\<And>ty. collectedOf cfg ty witnesses \<le> totalOf ty witnesses"
  proof -
    fix ty
    define Q where "Q = (\<lambda>w::WitnessProof. checkLog (LogRequired cfg) (HasLog w) \<and> Proof w \<noteq> None)"
    have "filter (\<lambda>w. Type w = ty \<and> Q w) witnesses = filter Q (filter (\<lambda>w. Type w = ty) witnesses)"
      by (simp add: conj_commute)
    moreover have "length (filter Q (filter (\<lambda>w. Type w = ty) witnesses)) \<le>
                   length (filter (\<lambda>w. Type w = ty) witnesses)"
      by (rule length_filter_le)
    ultimately show "collectedOf cfg ty witnesses \<le> totalOf ty witnesses"
      unfolding collectedOf_def totalOf_def Q_def by simp
  qed
  have b: "evaluate (collectedBatchWitnesses c) (totalBatchWitnesses c) (MinNumberBatch cfg) (MinPercentBatch cfg) =
           satisfiedClass (MinNumberBatch cfg) (MinPercentBatch cfg)
             (collectedOf cfg WitnessTypeBatch witnesses) (totalOf WitnessTypeBatch witnesses)"
    unfolding cb tb using parsed sub[of WitnessTypeBatch] le
    by (intro evaluate_satisfiedClass) (auto simp: parsedConfig_def collectedOf_def totalOf_def)
  have s: "evaluate (collectedSystemWitnesses c) (totalSystemWitnesses c) (MinNumberSystem cfg) (MinPercentSystem cfg) =
           satisfiedClass (MinNumberSystem cfg) (MinPercentSystem cfg)
             (collectedOf cfg WitnessTypeSystem witnesses) (totalOf WitnessTypeSystem witnesses)"
    unfolding cs ts using parsed sub[of WitnessTypeSystem] le
    by (intro evaluate_satisfiedClass) (auto simp: parsedConfig_def collectedOf_def totalOf_def)
  have z: "\<And>mn mp k. mp \<le> 100 \<Longrightarrow> satisfiedClass mn mp k 0"
    by (simp add: satisfiedClass_def)
  have "Evaluate wp witnesses =
          Inr (OperatorFnc cfg
                 (evaluate (collectedBatchWitnesses c) (totalBatchWitnesses c) (MinNumberBatch cfg) (MinPercentBatch cfg))
                 (evaluate (collectedSystemWitnesses c) (totalSystemWitnesses c) (MinNumberSystem cfg) (MinPercentSystem cfg)))"
    using cfg by (simp add: Evaluate_def Let_def c_def)
  then show ?thesis
    unfolding b s using parsed z
    by (auto simp: OperatorFnc_def parsedConfig_def split: Operator.splits)
qed

theorem Evaluate_formula_witness:
  "Evaluate (policyWith allBatch) twoOfThree =
     Inr (case Operator allBatch of
            AND \<Rightarrow>
              satisfiedClass (MinNumberBatch allBatch) (MinPercentBatch allBatch)
                (collectedOf allBatch WitnessTypeBatch twoOfThree) (totalOf WitnessTypeBatch twoOfThree) \<and>
              satisfiedClass (MinNumberSystem allBatch) (MinPercentSystem allBatch)
                (collectedOf allBatch WitnessTypeSystem twoOfThree) (totalOf WitnessTypeSystem twoOfThree)
          | OR \<Rightarrow>
              satisfiedClass (MinNumberBatch allBatch) (MinPercentBatch allBatch)
                (collectedOf allBatch WitnessTypeBatch twoOfThree) (totalOf WitnessTypeBatch twoOfThree) \<or>
              satisfiedClass (MinNumberSystem allBatch) (MinPercentSystem allBatch)
                (collectedOf allBatch WitnessTypeSystem twoOfThree) (totalOf WitnessTypeSystem twoOfThree)) \<and>
   satisfiedClass (MinNumberSystem allBatch) (MinPercentSystem allBatch)
     (collectedOf allBatch WitnessTypeSystem twoOfThree) (totalOf WitnessTypeSystem twoOfThree)"
proof -
  have cfg: "getWitnessPolicyConfig (policyWith allBatch) = Inr allBatch"
    by (simp add: policyWith_def)
  have parsed: "parsedConfig allBatch"
    by (simp add: parsedConfig_def allBatch_def)
  have len: "length twoOfThree < 2 ^ 40"
    by (simp add: twoOfThree_def)
  have none: "totalOf WitnessTypeSystem twoOfThree = 0"
    by (simp add: totalOf_def twoOfThree_def batchProof_def)
  from Evaluate_formula [OF cfg parsed len] none show ?thesis
    by blast
qed

section \<open>The number of witnesses requested from the strategy\<close>

lemma percent_product_error:
  fixes p t :: int
  assumes p: "0 \<le> p" "p \<le> 100" and t: "0 \<le> t" "t < 2 ^ 40"
  shows "\<bar>f64_mul (f64_div (float64 p) (float64 maxPercent)) (float64 t)
          - of_int (p * t) / 100\<bar> < 1 / 100"
proof -
  define u :: rat where "u = 2 powi (- 53)"
  define b :: rat where "b = f64_round (of_int p / 100)"
  define T :: rat where "T = of_int t"
  define X :: rat where "X = of_int (p * t) / 100"
  have fp: "float64 p = of_int p" using p by (intro float64_small) auto
  have ft: "float64 t = T" unfolding T_def using t by (intro float64_small) auto
  have fh: "float64 maxPercent = 100"
    using float64_small[of 100] by (simp add: maxPercent_def)
  have u0: "0 \<le> u" using two_powi_pos[of "- 53"] by (simp add: u_def)
  have u1: "u \<le> 1" by (simp add: u_def two_powi_m53)
  have T0: "0 \<le> T" using t by (simp add: T_def)
  have "t < 1099511627776" using t by simp
  then have "(of_int t :: rat) < of_int 1099511627776" by (simp only: of_int_less_iff)
  then have Tb: "T < 1099511627776" by (simp add: T_def)
  have b01: "(0::rat) \<le> of_int p / 100" "(of_int p / 100 :: rat) \<le> 1"
    using p by auto
  have eb: "\<bar>b - of_int p / 100\<bar> \<le> u"
    using f64_round_unit[OF b01] by (simp add: b_def u_def)
  have X: "X = of_int p / 100 * T" by (simp add: X_def T_def)
  define w where "w = u * T"
  have "b * T - X = (b - of_int p / 100) * T" by (simp add: X algebra_simps)
  then have "\<bar>b * T - X\<bar> = \<bar>b - of_int p / 100\<bar> * T"
    using T0 by (simp add: abs_mult)
  also have "\<dots> \<le> u * T" using eb T0 by (intro mult_right_mono) auto
  finally have e1: "\<bar>b * T - X\<bar> \<le> w" by (simp add: w_def)
  have "\<bar>b\<bar> \<le> 2" using eb b01 u1 by linarith
  then have bT: "\<bar>b * T\<bar> \<le> 2 * T" using T0 by (simp add: abs_mult mult_right_mono)
  have "\<bar>f64_round (b * T) - b * T\<bar> \<le> \<bar>b * T\<bar> * u"
    unfolding u_def by (rule f64_round_relative)
  also have "\<bar>b * T\<bar> * u \<le> (2 * T) * u"
    using bT u0 by (intro mult_right_mono) auto
  also have "(2 * T) * u = 2 * w" by (simp add: w_def)
  finally have e2: "\<bar>f64_round (b * T) - b * T\<bar> \<le> 2 * w" .
  have "\<bar>f64_round (b * T) - X\<bar> \<le> 3 * w"
    using e1 e2 by linarith
  moreover have "3 * w < 1 / 100"
  proof -
    have "T * u \<le> 1099511627776 * u" using Tb u0 by (intro mult_right_mono) auto
    also have "\<dots> = 1 / 8192" by (simp add: u_def two_powi_m53)
    finally have "w \<le> 1 / 8192" by (simp add: w_def mult.commute)
    then show ?thesis by simp
  qed
  ultimately have "\<bar>f64_round (b * T) - X\<bar> < 1 / 100" by linarith
  then show ?thesis
    by (simp add: f64_mul_def f64_div_def fp ft fh b_def X_def)
qed

lemma percent_ceiling_off_integers:
  fixes p t :: int
  assumes p: "0 \<le> p" "p \<le> 100" and t: "0 \<le> t" "t < 2 ^ 40"
    and nd: "\<not> 100 dvd p * t"
  shows "f64_Ceil (f64_mul (f64_div (float64 p) (float64 maxPercent)) (float64 t)) = percentTarget p t"
proof -
  define v where "v = f64_mul (f64_div (float64 p) (float64 maxPercent)) (float64 t)"
  define k where "k = (p * t) div 100"
  define r where "r = (p * t) mod 100"
  define X :: rat where "X = of_int (p * t) / 100"
  have "0 \<le> r" "r < 100" by (simp_all add: r_def)
  moreover have "r \<noteq> 0" using nd by (simp add: r_def dvd_eq_mod_eq_0)
  ultimately have r: "1 \<le> r" "r \<le> 99" by simp_all
  define K :: rat where "K = of_int k"
  define \<rho> :: rat where "\<rho> = of_int r / 100"
  have "p * t = 100 * k + r" by (simp add: k_def r_def)
  then have "(of_int (p * t) :: rat) = of_int (100 * k + r)" by simp
  then have Xk: "X = K + \<rho>" by (simp add: X_def K_def \<rho>_def add_divide_distrib)
  have "(of_int 1 :: rat) \<le> of_int r" "(of_int r :: rat) \<le> of_int 99"
    using r by (simp_all only: of_int_le_iff)
  then have rb: "1 / 100 \<le> \<rho>" "\<rho> \<le> 99 / 100"
    by (simp_all add: \<rho>_def)
  have err: "\<bar>v - X\<bar> < 1 / 100"
    using percent_product_error[OF p t] by (simp only: v_def X_def)
  have "K < v" "v < K + 1"
    using err Xk rb by linarith+
  then have "of_int k < v" "v \<le> of_int (k + 1)" by (simp_all add: K_def)
  then have cv: "\<lceil>v\<rceil> = k + 1" by (intro ceiling_unique) auto
  have "K < X" "X \<le> K + 1"
    using Xk rb by linarith+
  then have "of_int k < X" "X \<le> of_int (k + 1)" by (simp_all add: K_def)
  then have cx: "\<lceil>X\<rceil> = k + 1" by (intro ceiling_unique) auto
  have "percentTarget p t = \<lceil>X\<rceil>" by (simp add: percentTarget_def X_def)
  with cv cx show ?thesis by (simp add: f64_Ceil_def v_def)
qed

lemma percent_ceiling_quarters:
  fixes p t m :: int
  assumes m: "0 \<le> m" "m \<le> 4" "p = 25 * m" and t: "0 \<le> t" "t < 2 ^ 40"
  shows "f64_Ceil (f64_mul (f64_div (float64 p) (float64 maxPercent)) (float64 t)) = percentTarget p t"
proof -
  have fp: "float64 p = of_int p" using m by (intro float64_small) auto
  have ft: "float64 t = of_int t" using t by (intro float64_small) auto
  have fh: "float64 maxPercent = 100"
    using float64_small[of 100] by (simp add: maxPercent_def)
  have q: "(of_int p / 100 :: rat) = of_int m * 2 powi (- 2)"
    using m by (simp add: power_int_minus)
  have "\<bar>m\<bar> < 2 ^ 53" using m by simp
  then have b: "f64_round (of_int p / 100) = of_int m * 2 powi (- 2)"
    unfolding q by (rule f64_round_exact)
  have "m * t \<le> 4 * t" using m t by (intro mult_right_mono) auto
  then have "\<bar>m * t\<bar> < 2 ^ 53" using m t by simp
  then have "f64_round (of_int (m * t) * 2 powi (- 2)) = of_int (m * t) * 2 powi (- 2)"
    by (rule f64_round_exact)
  moreover have "(of_int m * 2 powi (- 2)) * (of_int t :: rat) = of_int (m * t) * 2 powi (- 2)"
    by simp
  ultimately have ex: "f64_round (of_int m * 2 powi (- 2) * of_int t) = of_int m * 2 powi (- 2) * of_int t"
    by simp
  have "f64_mul (f64_div (float64 p) (float64 maxPercent)) (float64 t) =
          f64_round (f64_round (of_int p / 100) * of_int t)"
    by (simp only: f64_mul_def f64_div_def fp ft fh)
  also have "\<dots> = f64_round (of_int m * 2 powi (- 2) * of_int t)"
    by (simp only: b)
  also have "\<dots> = of_int m * 2 powi (- 2) * of_int t"
    by (rule ex)
  also have "\<dots> = of_int p / 100 * of_int t"
    by (simp only: q)
  finally have eq: "f64_mul (f64_div (float64 p) (float64 maxPercent)) (float64 t) =
                      of_int p / 100 * of_int t" .
  show ?thesis by (simp only: f64_Ceil_def percentTarget_def eq)
qed

text \<open>
  The float64 product is not always the exact one: seven percent of a hundred witnesses
  is computed as a little more than seven, and the ceiling is eight. Where the exact
  product is not an integer the ceiling is the exact one; where it is, the ceiling is the
  exact one unless the float64 product lies above it.
\<close>

lemma minSelection_seven_percent:
  "minSelection [] 0 7 100 [] = 8 \<and> percentTarget 7 100 = 7"
  by code_simp

lemma percent_ceiling_on_integers:
  fixes p t :: int
  assumes p: "0 \<le> p" "p \<le> 100" and t: "0 \<le> t" "t < 2 ^ 40"
    and d: "100 dvd p * t"
  shows "f64_Ceil (f64_mul (f64_div (float64 p) (float64 maxPercent)) (float64 t)) =
           (if overshoots p t then percentTarget p t + 1 else percentTarget p t)"
proof -
  define v where "v = f64_mul (f64_div (float64 p) (float64 maxPercent)) (float64 t)"
  from d obtain k where k: "p * t = 100 * k" by (auto simp: dvd_def)
  define K :: rat where "K = of_int k"
  have X: "(of_int (p * t) :: rat) / 100 = K" by (simp add: k K_def)
  have "(of_int p / 100 * of_int t :: rat) = of_int (p * t) / 100" by simp
  then have pt: "percentTarget p t = k"
    unfolding percentTarget_def X by (simp add: K_def)
  have err: "\<bar>v - K\<bar> < 1 / 100"
    using percent_product_error[OF p t] unfolding X by (simp only: v_def)
  show ?thesis
  proof (cases "overshoots p t")
    case True
    then have "K < v" unfolding overshoots_def X v_def[symmetric] by simp
    moreover from err have "v < K + 1" by linarith
    ultimately have "of_int k < v" "v \<le> of_int (k + 1)" by (simp_all add: K_def)
    then have "\<lceil>v\<rceil> = k + 1" by (intro ceiling_unique) auto
    with True pt show ?thesis by (simp add: f64_Ceil_def v_def)
  next
    case False
    then have "v \<le> K" using d unfolding overshoots_def X v_def[symmetric] by simp
    moreover from err have "K - 1 < v" by linarith
    ultimately have "of_int k - 1 < v" "v \<le> of_int k" by (simp_all add: K_def)
    then have "\<lceil>v\<rceil> = k" by (intro ceiling_unique) auto
    with False pt show ?thesis by (simp add: f64_Ceil_def v_def)
  qed
qed

lemma percent_ceiling_unless_overshoots:
  fixes p t :: int
  assumes "0 \<le> p" "p \<le> 100" "0 \<le> t" "t < 2 ^ 40" "\<not> overshoots p t"
  shows "f64_Ceil (f64_mul (f64_div (float64 p) (float64 maxPercent)) (float64 t)) = percentTarget p t"
proof (cases "100 dvd p * t")
  case True
  then show ?thesis using percent_ceiling_on_integers[OF assms(1-4)] assms(5) by simp
next
  case False
  with assms(1-4) show ?thesis by (rule percent_ceiling_off_integers)
qed

lemma overshoots_iff:
  fixes p t :: int
  assumes "0 \<le> p" "p \<le> 100" "0 \<le> t" "t < 2 ^ 40"
  shows "overshoots p t \<longleftrightarrow>
           f64_Ceil (f64_mul (f64_div (float64 p) (float64 maxPercent)) (float64 t)) \<noteq> percentTarget p t"
proof (cases "100 dvd p * t")
  case True
  then show ?thesis using percent_ceiling_on_integers[OF assms] by simp
next
  case False
  then show ?thesis
    using percent_ceiling_off_integers[OF assms False] by (simp add: overshoots_def)
qed

lemma quarters_never_overshoot:
  fixes p t m :: int
  assumes "0 \<le> m" "m \<le> 4" "p = 25 * m" "0 \<le> t" "t < 2 ^ 40"
  shows "\<not> overshoots p t"
proof -
  have "0 \<le> p" "p \<le> 100" using assms by auto
  then show ?thesis
    using overshoots_iff[of p t] percent_ceiling_quarters[OF assms] assms(4,5) by simp
qed

lemma overshoots_examples:
  "\<not> overshoots 10 10 \<and> \<not> overshoots 30 20 \<and> \<not> overshoots 60 5 \<and> \<not> overshoots 30 0 \<and>
   \<not> overshoots 7 50 \<and> overshoots 7 100"
  by code_simp

lemma requested_counts_the_input:
  "requested halfBatchWithLog [] fourBatch WitnessTypeBatch = 2 \<and>
   classTotal WitnessTypeBatch fourBatch = 4 \<and>
   length (classEligible halfBatchWithLog [] WitnessTypeBatch fourBatch) = 2"
  by code_simp

text \<open>
  Claim C3 does not hold as stated: the number is not clamped. With two preferred
  witnesses and the policy \<^verbatim>\<open>MinNumber(1,batch) AND MinNumber(1,system)\<close> the strategy is
  asked for \<open>- 1\<close> batch witnesses, as a strategy that reports negative requests shows.
\<close>

theorem minSelection_negative:
  "minSelection [batchWitness ''a'' True, batchWitness ''b'' True] 1 0 2
     [systemWitness ''a'' True, systemWitness ''b'' True] = - 1 \<and>
   Select \<lparr>getWitnessPolicyConfig = Inr (oneOfEach AND), selector = refusingSelector\<rparr>
     [batchWitness ''a'' True, batchWitness ''b'' True,
      systemWitness ''a'' True, systemWitness ''b'' True] [] =
     Inl (Wrap ''select batch witnesses'' (Err ''negative number of witnesses requested''))"
  by code_simp

text \<open>
  Claim C3, amended: under either operator \<open>selectBatchAndSystemWitnesses\<close> asks the
  strategy, for each class, for \<open>requested\<close> witnesses among the eligible ones of the
  class that are not preferred (for the batch class only when it has eligible witnesses),
  and passes the number on as computed, negative or not. The number is
  \<open>MinNumber - |preferred|\<close> when \<open>MinNumber > 0\<close>; else, for a percentage between 0 and
  100, it is \<open>\<lceil>MinPercent/100 \<times> total\<rceil> - |preferred|\<close>, where the total counts every
  witness of the class in the input, eligible or not, on every input but those where
  \<open>MinPercent \<times> total\<close> is a multiple of 100 and the float64 product lies above it; else,
  for a negative percentage, \<open>|eligible| - |preferred|\<close>. Inputs have fewer than \<open>2 ^ 40\<close>
  witnesses.
\<close>

theorem requested_target:
  "selectBatchAndSystemWitnesses wp witnesses cfg exclude =
     (let preferred = preferredOf cfg exclude witnesses;
          eligibleBatch = classEligible cfg exclude WitnessTypeBatch witnesses;
          eligibleSystem = classEligible cfg exclude WitnessTypeSystem witnesses
      in case (if eligibleBatch = [] then Inr []
               else (case selector wp (difference eligibleBatch preferred)
                            (requested cfg exclude witnesses WitnessTypeBatch) of
                       Inl err \<Rightarrow> Inl (Wrap ''select batch witnesses'' err)
                     | Inr chosen \<Rightarrow> Inr (preferred @ chosen))) of
           Inl err \<Rightarrow> Inl err
         | Inr selectedBatch \<Rightarrow>
             (case selector wp (difference eligibleSystem preferred)
                     (requested cfg exclude witnesses WitnessTypeSystem) of
                Inl err \<Rightarrow> Inl (Wrap ''select system witnesses'' err)
              | Inr chosen \<Rightarrow> Inr (selectedBatch, preferred @ chosen))) \<and>
   (0 < minNumberOf cfg ty \<longrightarrow>
      requested cfg exclude witnesses ty =
        minNumberOf cfg ty - int (length (preferredOf cfg exclude witnesses))) \<and>
   (minNumberOf cfg ty \<le> 0 \<and> 0 \<le> minPercentOf cfg ty \<and> minPercentOf cfg ty \<le> 100 \<and>
    length witnesses < 2 ^ 40 \<and> \<not> overshoots (minPercentOf cfg ty) (classTotal ty witnesses) \<longrightarrow>
      requested cfg exclude witnesses ty =
        percentTarget (minPercentOf cfg ty) (classTotal ty witnesses)
          - int (length (preferredOf cfg exclude witnesses))) \<and>
   (minNumberOf cfg ty \<le> 0 \<and> minPercentOf cfg ty < 0 \<longrightarrow>
      requested cfg exclude witnesses ty =
        int (length (classEligible cfg exclude ty witnesses))
          - int (length (preferredOf cfg exclude witnesses)))"
proof -
  define st where "st = partitionWitnesses cfg exclude noEligible witnesses"
  have eb: "eligibleBatchWitnesses st = classEligible cfg exclude WitnessTypeBatch witnesses"
    and es: "eligibleSystemWitnesses st = classEligible cfg exclude WitnessTypeSystem witnesses"
    and tb: "totalBatch st = classTotal WitnessTypeBatch witnesses"
    and ts: "totalSystem st = classTotal WitnessTypeSystem witnesses"
    by (simp_all add: st_def partition_eligibleBatch partition_eligibleSystem partition_totalBatch
        partition_totalSystem noEligible_def classEligible_def classTotal_def)
  have cm: "commonWitnesses cfg st = preferredOf cfg exclude witnesses"
    by (simp add: commonWitnesses_def preferredOf_def eb es)
  have first: "selectBatchAndSystemWitnesses wp witnesses cfg exclude =
     (let preferred = preferredOf cfg exclude witnesses;
          eligibleBatch = classEligible cfg exclude WitnessTypeBatch witnesses;
          eligibleSystem = classEligible cfg exclude WitnessTypeSystem witnesses
      in case (if eligibleBatch = [] then Inr []
               else (case selector wp (difference eligibleBatch preferred)
                            (requested cfg exclude witnesses WitnessTypeBatch) of
                       Inl err \<Rightarrow> Inl (Wrap ''select batch witnesses'' err)
                     | Inr chosen \<Rightarrow> Inr (preferred @ chosen))) of
           Inl err \<Rightarrow> Inl err
         | Inr selectedBatch \<Rightarrow>
             (case selector wp (difference eligibleSystem preferred)
                     (requested cfg exclude witnesses WitnessTypeSystem) of
                Inl err \<Rightarrow> Inl (Wrap ''select system witnesses'' err)
              | Inr chosen \<Rightarrow> Inr (selectedBatch, preferred @ chosen)))"
    unfolding selectBatchAndSystemWitnesses_def Let_def st_def[symmetric] cm eb es tb ts
      selectMinWitnesses_def requested_def minNumberOf_def minPercentOf_def
    by (simp split: sum.splits)
  have tot: "0 \<le> classTotal ty witnesses" "classTotal ty witnesses < 2 ^ 40"
    if "length witnesses < 2 ^ 40"
  proof -
    show "0 \<le> classTotal ty witnesses" by (simp add: classTotal_def)
    have "length (filter (\<lambda>w. Type w = ty) witnesses) \<le> length witnesses" by simp
    from this that have "length (filter (\<lambda>w. Type w = ty) witnesses) < 2 ^ 40"
      by (rule le_less_trans)
    then show "classTotal ty witnesses < 2 ^ 40"
      unfolding classTotal_def by (metis of_nat_less_iff of_nat_numeral of_nat_power)
  qed
  have pct: "requested cfg exclude witnesses ty =
        percentTarget (minPercentOf cfg ty) (classTotal ty witnesses)
          - int (length (preferredOf cfg exclude witnesses))"
    if "minNumberOf cfg ty \<le> 0" "0 \<le> minPercentOf cfg ty" "minPercentOf cfg ty \<le> 100"
      "length witnesses < 2 ^ 40" "\<not> overshoots (minPercentOf cfg ty) (classTotal ty witnesses)"
    using that percent_ceiling_unless_overshoots[OF that(2,3) tot[OF that(4)] that(5)]
    by (simp add: requested_def minSelection_def)
  have num: "0 < minNumberOf cfg ty \<Longrightarrow> requested cfg exclude witnesses ty =
        minNumberOf cfg ty - int (length (preferredOf cfg exclude witnesses))"
    by (simp add: requested_def minSelection_def)
  have neg: "minNumberOf cfg ty \<le> 0 \<Longrightarrow> minPercentOf cfg ty < 0 \<Longrightarrow>
      requested cfg exclude witnesses ty =
        int (length (classEligible cfg exclude ty witnesses))
          - int (length (preferredOf cfg exclude witnesses))"
    by (simp add: requested_def minSelection_def)
  from first num pct neg show ?thesis by blast
qed

theorem requested_target_witness:
  "requested halfBatchWithLog [] fourBatch WitnessTypeBatch =
     percentTarget (minPercentOf halfBatchWithLog WitnessTypeBatch) (classTotal WitnessTypeBatch fourBatch)
       - int (length (preferredOf halfBatchWithLog [] fourBatch)) \<and>
   requested (oneOfEach AND) [] twoCommon WitnessTypeBatch =
     minNumberOf (oneOfEach AND) WitnessTypeBatch - int (length (preferredOf (oneOfEach AND) [] twoCommon))"
proof -
  have len: "length fourBatch < 2 ^ 40"
    by (simp add: fourBatch_def)
  have num: "minNumberOf halfBatchWithLog WitnessTypeBatch \<le> 0"
    and lo: "0 \<le> minPercentOf halfBatchWithLog WitnessTypeBatch"
    and hi: "minPercentOf halfBatchWithLog WitnessTypeBatch \<le> 100"
    by (simp_all add: minNumberOf_def minPercentOf_def halfBatchWithLog_def)
  have ok: "\<not> overshoots (minPercentOf halfBatchWithLog WitnessTypeBatch)
                (classTotal WitnessTypeBatch fourBatch)"
    by code_simp
  have pos: "0 < minNumberOf (oneOfEach AND) WitnessTypeBatch"
    by (simp add: minNumberOf_def oneOfEach_def)
  from requested_target [of "policyWith halfBatchWithLog" fourBatch halfBatchWithLog "[]" WitnessTypeBatch]
       requested_target [of "policyWith (oneOfEach AND)" twoCommon "oneOfEach AND" "[]" WitnessTypeBatch]
       len num lo hi ok pos
  show ?thesis by blast
qed

section \<open>The store on a healthy backend\<close>

lemma store_Query_anchor:
  "available st \<Longrightarrow> store_Query st (anchorQuery a) = Inr (filter (storedFor a) (entries st))"
  by (simp add: store_Query_def anchorQuery_def anchorIndex_def storedFor_def[abs_def] Let_def)

lemma getWitnessesMap_aux:
  "(foldl (\<lambda>witnessesMap w. if witnessesMap w = None then witnessesMap(w \<mapsto> True) else witnessesMap) m urls) u \<noteq> None
     \<longleftrightarrow> m u \<noteq> None \<or> u \<in> set urls"
  by (induction urls arbitrary: m) auto

lemma getWitnessesMap_iff: "getWitnessesMap urls u \<noteq> None \<longleftrightarrow> u \<in> set urls"
  unfolding getWitnessesMap_def by (subst getWitnessesMap_aux) simp

lemma store_Put_present:
  assumes "available st" "distinct (map entryKey (entries st))" "e \<in> set (entries st)"
  shows "store_Put st (entryKey e) v tags =
           Inr (st\<lparr>entries := map (\<lambda>x. if x = e then \<lparr>entryKey = entryKey e, entryValue = v, entryTags = tags\<rparr> else x) (entries st)\<rparr>)"
proof -
  have "\<And>x. x \<in> set (entries st) \<Longrightarrow> (entryKey x = entryKey e) = (x = e)"
    using assms(2,3) by (auto simp: distinct_map inj_on_def)
  then have "map (\<lambda>x. if entryKey x = entryKey e then \<lparr>entryKey = entryKey e, entryValue = v, entryTags = tags\<rparr> else x) (entries st)
           = map (\<lambda>x. if x = e then \<lparr>entryKey = entryKey e, entryValue = v, entryTags = tags\<rparr> else x) (entries st)"
    by (intro map_cong) auto
  with assms show ?thesis by (auto simp: store_Put_def)
qed

lemma updateLoop_result:
  assumes "available st" "distinct (map entryKey (entries st))"
    and "set iter \<subseteq> set (entries st)" "distinct iter" "list_all decodable iter"
  shows "updateLoop a (getWitnessesMap urls) f st n iter =
           (None,
            st\<lparr>entries := map (\<lambda>x. if x \<in> set iter \<and> recordIn urls x then rewritten a f x else x) (entries st)\<rparr>,
            n + int (length (filter (recordIn urls) iter)))"
  using assms
proof (induction iter arbitrary: st n)
  case Nil
  then show ?case by simp
next
  case (Cons e iter)
  from Cons.prems obtain r where r: "entryValue e = WitnessJSON r"
    by (auto simp: decodable_def split: stored.splits)
  have ein: "e \<in> set (entries st)" using Cons.prems by simp
  show ?case
  proof (cases "recordIn urls e")
    case False
    then have nm: "getWitnessesMap urls (URI r) = None"
      using r getWitnessesMap_iff[of urls "URI r"] by (simp add: recordIn_def)
    have "updateLoop a (getWitnessesMap urls) f st n (e # iter) =
            updateLoop a (getWitnessesMap urls) f st n iter"
      using r nm by (simp add: unmarshalWitnessProof_def)
    also have "\<dots> = (None,
            st\<lparr>entries := map (\<lambda>x. if x \<in> set iter \<and> recordIn urls x then rewritten a f x else x) (entries st)\<rparr>,
            n + int (length (filter (recordIn urls) iter)))"
      using Cons.prems by (intro Cons.IH) auto
    also have "map (\<lambda>x. if x \<in> set iter \<and> recordIn urls x then rewritten a f x else x) (entries st) =
               map (\<lambda>x. if x \<in> set (e # iter) \<and> recordIn urls x then rewritten a f x else x) (entries st)"
      using False by (intro map_cong) auto
    finally show ?thesis using False by simp
  next
    case True
    then have m: "getWitnessesMap urls (URI r) \<noteq> None"
      using r getWitnessesMap_iff[of urls "URI r"] by (simp add: recordIn_def)
    define e' where "e' = rewritten a f e"
    have e': "e' = \<lparr>entryKey = entryKey e, entryValue = WitnessJSON (f r), entryTags = [anchorTag a]\<rparr>"
      using r by (simp add: e'_def rewritten_def)
    define st' where "st' = st\<lparr>entries := map (\<lambda>x. if x = e then e' else x) (entries st)\<rparr>"
    have put: "store_Put st (entryKey e) (WitnessJSON (f r)) [\<lparr>Name = anchorIndex, Value = RawURLEncoding a\<rparr>] = Inr st'"
      using store_Put_present[OF Cons.prems(1,2) ein] by (simp add: st'_def e' anchorTag_def)
    have step: "updateLoop a (getWitnessesMap urls) f st n (e # iter) =
            updateLoop a (getWitnessesMap urls) f st' (n + 1) iter"
      using r m put by (simp add: unmarshalWitnessProof_def)
    have keys': "map entryKey (entries st') = map entryKey (entries st)"
      by (auto simp: st'_def e')
    have enot: "e \<notin> set iter" using Cons.prems by simp
    have sub': "set iter \<subseteq> set (entries st')"
      using Cons.prems enot by (auto simp: st'_def)
    have e'not: "e' \<notin> set iter"
    proof
      assume "e' \<in> set iter"
      then have "e' \<in> set (entries st)" using Cons.prems by auto
      moreover have "entryKey e' = entryKey e" by (simp add: e')
      ultimately have "e' = e" using Cons.prems(2) ein by (auto simp: distinct_map inj_on_def)
      with \<open>e' \<in> set iter\<close> enot show False by simp
    qed
    have "updateLoop a (getWitnessesMap urls) f st' (n + 1) iter = (None,
            st'\<lparr>entries := map (\<lambda>x. if x \<in> set iter \<and> recordIn urls x then rewritten a f x else x) (entries st')\<rparr>,
            n + 1 + int (length (filter (recordIn urls) iter)))"
    proof (rule Cons.IH)
      show "available st'" using Cons.prems(1) by (simp add: st'_def)
      show "distinct (map entryKey (entries st'))" using Cons.prems(2) keys' by simp
      show "set iter \<subseteq> set (entries st')" by (rule sub')
      show "distinct iter" using Cons.prems(4) by simp
      show "list_all decodable iter" using Cons.prems(5) by simp
    qed
    moreover have "map (\<lambda>x. if x \<in> set iter \<and> recordIn urls x then rewritten a f x else x) (entries st') =
               map (\<lambda>x. if x \<in> set (e # iter) \<and> recordIn urls x then rewritten a f x else x) (entries st)"
      using True e'not enot by (auto simp: st'_def e'_def)
    ultimately show ?thesis using step True by (simp add: st'_def)
  qed
qed

lemma updateWitnessProof_result:
  assumes "healthy s a"
  shows "updateWitnessProof s a urls f =
           (if hasWitness s a urls then None else Some (notFound urls a),
            s\<lparr>store := (store s)\<lparr>entries := map (updateEntry a urls f) (entries (store s))\<rparr>\<rparr>)"
proof -
  let ?E = "entries (store s)"
  let ?iter = "filter (storedFor a) ?E"
  from assms have av: "available (store s)" and dk: "distinct (map entryKey ?E)"
    and dec: "list_all decodable ?iter"
    by (auto simp: healthy_def)
  have di: "distinct ?iter" using dk by (simp add: distinct_map)
  have loop: "updateLoop a (getWitnessesMap urls) f (store s) 0 ?iter =
           (None,
            (store s)\<lparr>entries := map (\<lambda>x. if x \<in> set ?iter \<and> recordIn urls x then rewritten a f x else x) ?E\<rparr>,
            0 + int (length (filter (recordIn urls) ?iter)))"
    using av dk di dec by (intro updateLoop_result) auto
  have m: "map (\<lambda>x. if x \<in> set ?iter \<and> recordIn urls x then rewritten a f x else x) ?E = map (updateEntry a urls f) ?E"
    by (intro map_cong) (auto simp: updateEntry_def)
  have cnt: "(length (filter (recordIn urls) ?iter) = 0) = (\<not> hasWitness s a urls)"
    by (auto simp: hasWitness_def list_ex_iff filter_empty_conv)
  have q: "store_Query (store s) (anchorQuery a) = Inr ?iter"
    using av by (rule store_Query_anchor)
  show ?thesis
    unfolding updateWitnessProof_def Let_def q sum.case loop m
    using cnt by (simp add: notFound_def)
qed

lemma applyOperations_delete:
  "applyOperations st (map (\<lambda>k. \<lparr>opKey = k, opValue = None, opTags = []\<rparr>) keys) =
     Inr (st\<lparr>entries := filter (\<lambda>e. entryKey e \<notin> set keys) (entries st)\<rparr>)"
proof (induction keys arbitrary: st)
  case Nil
  then show ?case by simp
next
  case (Cons k keys)
  have "filter (\<lambda>e. entryKey e \<notin> set keys) (filter (\<lambda>e. entryKey e \<noteq> k) (entries st)) =
        filter (\<lambda>e. entryKey e \<notin> set (k # keys)) (entries st)"
    by (auto intro: filter_cong)
  then show ?case by (simp add: Cons.IH store_delete_def)
qed

lemma Delete_result:
  assumes "available (store s)"
  shows "Delete s a =
           (None, s\<lparr>store := (store s)\<lparr>entries :=
              filter (\<lambda>e. entryKey e \<notin> entryKey ` set (filter (storedFor a) (entries (store s))))
                     (entries (store s))\<rparr>\<rparr>)"
proof (cases "filter (storedFor a) (entries (store s)) = []")
  case True
  then show ?thesis
    using assms by (simp add: Delete_def Let_def store_Query_anchor)
next
  case False
  then show ?thesis
    using assms
    by (simp add: Delete_def Let_def store_Query_anchor store_Batch_def applyOperations_delete)
qed

lemma Get_none:
  assumes "available (store s)" "filter (storedFor a) (entries (store s)) = []"
  shows "Get s a = Inl (Err (''anchorID['' @ a @ ''] not found in the store''))"
  using assms by (simp add: Get_def Let_def store_Query_anchor)

lemma rewritten_stored:
  assumes "healthy s a" "e \<in> set (entries (store s))" "storedFor a e" "recordIn urls e"
  shows "rewritten a f e \<in> set (entries (store (snd (updateWitnessProof s a urls f)))) \<and>
         entryKey (rewritten a f e) = entryKey e \<and>
         entryTags (rewritten a f e) = [anchorTag a] \<and>
         expiryTagName \<notin> Name ` set (entryTags (rewritten a f e))"
proof -
  from assms(4) obtain r where r: "entryValue e = WitnessJSON r"
    by (auto simp: recordIn_def split: stored.splits)
  have "updateEntry a urls f e = rewritten a f e"
    using assms(3,4) by (simp add: updateEntry_def)
  then have "rewritten a f e \<in> set (entries (store (snd (updateWitnessProof s a urls f))))"
    using assms(2) by (force simp: updateWitnessProof_result[OF assms(1)])
  then show ?thesis
    using r by (simp add: rewritten_def anchorTag_def anchorIndex_def expiryTagName_def)
qed

lemma exampleStore_healthy: "healthy exampleStore ''id''"
  by code_simp

section \<open>Adding a proof\<close>

text \<open>
  Claim C7: on a backend that answers, holds unique keys and decodable values for the
  anchor, \<open>AddProof\<close> rewrites every record stored for the anchor whose URI is the given
  one with \<open>Proof\<close> set to the given bytes, and leaves all other entries as they are. It
  fails exactly when no such record exists, and then with the error whose message names
  the witness URI and the anchor ID.
\<close>

theorem AddProof_sets_proof:
  assumes "healthy s anchorID"
  shows "AddProof s anchorID witness p =
           (if hasWitness s anchorID [witness] then None
            else Some (Err (''witness['' @ witness @ ''] not found for anchorID['' @ anchorID @ '']'')),
            s\<lparr>store := (store s)\<lparr>entries :=
                 map (updateEntry anchorID [witness] (\<lambda>wf. wf\<lparr>Proof := p\<rparr>)) (entries (store s))\<rparr>\<rparr>)"
  using updateWitnessProof_result[OF assms, of "[witness]" "\<lambda>wf. wf\<lparr>Proof := p\<rparr>"]
  by (simp add: AddProof_def notFound_def showURLs_def)

theorem AddProof_sets_proof_witness:
  "AddProof exampleStore ''id'' ''https://domain3.com/service'' (Some ''proof'') =
     (if hasWitness exampleStore ''id'' [''https://domain3.com/service''] then None
      else Some (Err (''witness['' @ ''https://domain3.com/service'' @
                      ''] not found for anchorID['' @ ''id'' @ '']'')),
      exampleStore\<lparr>store := (store exampleStore)\<lparr>entries :=
         map (updateEntry ''id'' [''https://domain3.com/service''] (\<lambda>wf. wf\<lparr>Proof := Some ''proof''\<rparr>))
             (entries (store exampleStore))\<rparr>\<rparr>)"
  by (rule AddProof_sets_proof [OF exampleStore_healthy])

section \<open>Updating the selection flag\<close>

text \<open>
  Claim C8 does not hold as stated. With records for \<^verbatim>\<open>domain1\<close> and \<^verbatim>\<open>domain2\<close> stored
  for the anchor, updating the selection of \<^verbatim>\<open>domain1\<close> and \<^verbatim>\<open>domain3\<close> succeeds although
  no record has the URI of \<^verbatim>\<open>domain3\<close>.
\<close>

theorem UpdateWitnessSelection_partial_match:
  "fst (UpdateWitnessSelection exampleStore ''id''
          [''https://domain1.com/service'', ''https://domain3.com/service''] True) = None \<and>
   \<not> hasWitness exampleStore ''id'' [''https://domain3.com/service'']"
  by code_simp

text \<open>
  Claim C8, amended: \<open>UpdateWitnessSelection\<close> sets the flag on every record stored for
  the anchor whose URI is in the list, and fails with the not-found error exactly when
  none of the given URIs matches a record stored for the anchor.
\<close>

theorem UpdateWitnessSelection_some_match:
  assumes "healthy s anchorID"
  shows "UpdateWitnessSelection s anchorID witnesses selected =
           (if hasWitness s anchorID witnesses then None
            else Some (Err (''witness'' @ showURLs witnesses @ '' not found for anchorID['' @ anchorID @ '']'')),
            s\<lparr>store := (store s)\<lparr>entries :=
                 map (updateEntry anchorID witnesses (\<lambda>wf. wf\<lparr>Selected := selected\<rparr>)) (entries (store s))\<rparr>\<rparr>)"
  using updateWitnessProof_result[OF assms, of witnesses "\<lambda>wf. wf\<lparr>Selected := selected\<rparr>"]
  by (simp add: UpdateWitnessSelection_def notFound_def)

theorem UpdateWitnessSelection_some_match_witness:
  "UpdateWitnessSelection exampleStore ''id''
     [''https://domain1.com/service'', ''https://domain3.com/service''] True =
     (if hasWitness exampleStore ''id'' [''https://domain1.com/service'', ''https://domain3.com/service'']
      then None
      else Some (Err (''witness'' @ showURLs [''https://domain1.com/service'', ''https://domain3.com/service'']
                      @ '' not found for anchorID['' @ ''id'' @ '']'')),
      exampleStore\<lparr>store := (store exampleStore)\<lparr>entries :=
         map (updateEntry ''id'' [''https://domain1.com/service'', ''https://domain3.com/service'']
                (\<lambda>wf. wf\<lparr>Selected := True\<rparr>))
             (entries (store exampleStore))\<rparr>\<rparr>)"
  by (rule UpdateWitnessSelection_some_match [OF exampleStore_healthy])

section \<open>Deleting an anchor\<close>

text \<open>
  Claim C9: on a backend that answers, \<open>Delete\<close> succeeds, changes nothing when no record
  is stored for the anchor, leaves no record stored for the anchor (and, the keys being
  unique, removes nothing else), and a following \<open>Get\<close> fails with the not-found error.
\<close>

theorem Delete_then_Get:
  assumes "available (store s)"
  shows "\<exists>s'. Delete s anchorID = (None, s') \<and>
              (filter (storedFor anchorID) (entries (store s)) = [] \<longrightarrow> s' = s) \<and>
              filter (storedFor anchorID) (entries (store s')) = [] \<and>
              (distinct (map entryKey (entries (store s))) \<longrightarrow>
                 entries (store s') = filter (\<lambda>e. \<not> storedFor anchorID e) (entries (store s))) \<and>
              Get s' anchorID = Inl (Err (''anchorID['' @ anchorID @ ''] not found in the store''))"
proof -
  let ?E = "entries (store s)"
  let ?K = "entryKey ` set (filter (storedFor anchorID) ?E)"
  define s' where "s' = s\<lparr>store := (store s)\<lparr>entries := filter (\<lambda>e. entryKey e \<notin> ?K) ?E\<rparr>\<rparr>"
  have d: "Delete s anchorID = (None, s')"
    using Delete_result[OF assms] by (simp add: s'_def)
  have none: "filter (storedFor anchorID) (entries (store s')) = []"
    by (auto simp: s'_def filter_empty_conv)
  have noop: "filter (storedFor anchorID) ?E = [] \<Longrightarrow> s' = s"
    by (simp add: s'_def)
  have frame: "entries (store s') = filter (\<lambda>e. \<not> storedFor anchorID e) ?E"
    if dk: "distinct (map entryKey ?E)"
  proof -
    have "\<And>e. e \<in> set ?E \<Longrightarrow> (entryKey e \<notin> ?K) = (\<not> storedFor anchorID e)"
      using dk by (auto simp: distinct_map inj_on_def)
    then show ?thesis by (auto simp: s'_def intro: filter_cong)
  qed
  have av: "available (store s')" using assms by (simp add: s'_def)
  have g: "Get s' anchorID = Inl (Err (''anchorID['' @ anchorID @ ''] not found in the store''))"
    by (rule Get_none[OF av none])
  from d none noop frame g show ?thesis by blast
qed

theorem Delete_then_Get_witness:
  "\<exists>s'. Delete exampleStore ''id'' = (None, s') \<and>
        (filter (storedFor ''id'') (entries (store exampleStore)) = [] \<longrightarrow> s' = exampleStore) \<and>
        filter (storedFor ''id'') (entries (store s')) = [] \<and>
        (distinct (map entryKey (entries (store exampleStore))) \<longrightarrow>
           entries (store s') = filter (\<lambda>e. \<not> storedFor ''id'' e) (entries (store exampleStore))) \<and>
        Get s' ''id'' = Inl (Err (''anchorID['' @ ''id'' @ ''] not found in the store''))"
proof -
  have av: "available (store exampleStore)"
    by code_simp
  show ?thesis
    by (rule Delete_then_Get [OF av])
qed

section \<open>Tags after an update\<close>

text \<open>
  Claim C10: when \<open>AddProof\<close> or \<open>UpdateWitnessSelection\<close> rewrites a matched record, the
  entry it writes has the key of the old one and the anchor tag as its only tag; whatever
  \<^verbatim>\<open>ExpiryTime\<close> tag the entry carried is gone.
\<close>

theorem update_drops_expiry_tag:
  assumes "healthy s anchorID" "e \<in> set (entries (store s))" "storedFor anchorID e"
    and "recordIn [witness] e" "witness \<in> set witnesses"
  shows "rewritten anchorID (\<lambda>wf. wf\<lparr>Proof := p\<rparr>) e
           \<in> set (entries (store (snd (AddProof s anchorID witness p)))) \<and>
         entryKey (rewritten anchorID (\<lambda>wf. wf\<lparr>Proof := p\<rparr>) e) = entryKey e \<and>
         entryTags (rewritten anchorID (\<lambda>wf. wf\<lparr>Proof := p\<rparr>) e) = [anchorTag anchorID] \<and>
         expiryTagName \<notin> Name ` set (entryTags (rewritten anchorID (\<lambda>wf. wf\<lparr>Proof := p\<rparr>) e)) \<and>
         rewritten anchorID (\<lambda>wf. wf\<lparr>Selected := selected\<rparr>) e
           \<in> set (entries (store (snd (UpdateWitnessSelection s anchorID witnesses selected)))) \<and>
         entryKey (rewritten anchorID (\<lambda>wf. wf\<lparr>Selected := selected\<rparr>) e) = entryKey e \<and>
         entryTags (rewritten anchorID (\<lambda>wf. wf\<lparr>Selected := selected\<rparr>) e) = [anchorTag anchorID] \<and>
         expiryTagName \<notin> Name ` set (entryTags (rewritten anchorID (\<lambda>wf. wf\<lparr>Selected := selected\<rparr>) e))"
proof -
  have "recordIn witnesses e"
    using assms(4,5) by (auto simp: recordIn_def split: stored.splits)
  then show ?thesis
    using rewritten_stored [OF assms(1,2,3,4), of "\<lambda>wf. wf\<lparr>Proof := p\<rparr>"]
          rewritten_stored [OF assms(1,2,3), of witnesses "\<lambda>wf. wf\<lparr>Selected := selected\<rparr>"]
    unfolding AddProof_def UpdateWitnessSelection_def by blast
qed

theorem update_drops_expiry_tag_witness:
  "expiryTagName \<in> Name ` set (entryTags exampleEntry) \<and>
   rewritten ''id'' (\<lambda>wf. wf\<lparr>Proof := Some ''proof''\<rparr>) exampleEntry
     \<in> set (entries (store (snd (AddProof exampleStore ''id'' ''https://domain1.com/service'' (Some ''proof''))))) \<and>
   entryKey (rewritten ''id'' (\<lambda>wf. wf\<lparr>Proof := Some ''proof''\<rparr>) exampleEntry) = entryKey exampleEntry \<and>
   entryTags (rewritten ''id'' (\<lambda>wf. wf\<lparr>Proof := Some ''proof''\<rparr>) exampleEntry) = [anchorTag ''id''] \<and>
   expiryTagName \<notin> Name ` set (entryTags (rewritten ''id'' (\<lambda>wf. wf\<lparr>Proof := Some ''proof''\<rparr>) exampleEntry))"
proof -
  have before: "expiryTagName \<in> Name ` set (entryTags exampleEntry)"
    by code_simp
  have e: "exampleEntry \<in> set (entries (store exampleStore))"
    by code_simp
  have st: "storedFor ''id'' exampleEntry"
    by code_simp
  have rc: "recordIn [''https://domain1.com/service''] exampleEntry"
    by code_simp
  have w: "''https://domain1.com/service'' \<in> set [''https://domain1.com/service'']"
    by simp
  from before update_drops_expiry_tag [OF exampleStore_healthy e st rc w, of "Some ''proof''" True]
  show ?thesis by blast
qed

end
